theory Spec2Isabelle
  imports Main "HOL-Library.AList" "HOL-Library.Sublist"
begin

section \<open>Data model\<close>

text \<open>
  \<open>encoder.py\<close> imports the classes \<open>Blob\<close>, \<open>BlobPathInZip\<close>,
  \<open>BlobLocationInRegistry\<close>, \<open>Manifest\<close> and \<open>PayloadDescriptor\<close> from
  \<open>docker_charon.common\<close>, which is not among the sources. Each is modelled with the
  fields that \<open>encoder.py\<close> reads and writes, with the meaning the data model of the
  specification gives them.
\<close>

text \<open>
  Modelled from the spec: the class \<open>Blob\<close>, a digest and the repository the blob was
  observed in. An instance is truthy, so \<open>if dest_blob := ...\<close> tests for \<open>None\<close>.
\<close>

record blob =
  digest :: string
  repository :: string

text \<open>
  Modelled from the spec: the two placements of a blob, \<open>BlobPathInZip(zip_path)\<close>
  and \<open>BlobLocationInRegistry(repository)\<close>.
\<close>

datatype blob_placement = BlobPathInZip string | BlobLocationInRegistry string

text \<open>
  A Python \<open>dict\<close> keeps its keys in insertion order and holds each key once. It is an
  association list that is only ever changed by \<open>AList.update\<close>: an existing key keeps
  its position and gets the new value, a new key is appended.
\<close>

type_synonym blobs_paths_dict = "(string \<times> blob_placement) list"

text \<open>
  Modelled from the spec: the content of a \<open>Manifest\<close> is either one manifest body (a
  Python \<open>str\<close>, the only thing \<open>ZipFile.writestr\<close> can store) or a
  multi-architecture index, a \<open>dict\<close> from platform key to manifest body.
\<close>

datatype manifest_content =
  SingleManifest string
  | MultiArchIndex "string \<rightharpoonup> string"

text \<open>
  Modelled from the spec: the class \<open>Manifest\<close>, with the two attributes that
  \<open>create_zip_from_docker_images\<close> reads.
\<close>

record manifest =
  docker_image_name :: string
  content :: manifest_content

text \<open>
  Modelled from the spec: the class \<open>PayloadDescriptor\<close>: the images to transfer, the
  archive path of the manifest of every image that needs work, the placement of every
  blob digest, and the images skipped because they are already transferred.
\<close>

record payload_descriptor =
  images :: "string list"
  manifests_paths :: "(string \<times> string) list"
  blobs_paths :: blobs_paths_dict
  skipped_images :: "string list"

section \<open>Errors and effects\<close>

text \<open>
  The first four errors are the error kinds of the specification; \<open>TypeError\<close> and
  \<open>KeyError\<close> are the Python exceptions that indexing and \<open>writestr\<close> raise.
\<close>

datatype error =
  ManifestNotFoundError
  | RegistryAuthError
  | BlobTransferError
  | ArchiveWriteError
  | TypeError
  | KeyError

text \<open>
  What \<open>pull_blob\<close> does: the call itself raises, or it returns an iterator of chunks
  that may raise after the chunks it has delivered.
\<close>

datatype pull_result =
  PullRaises error
  | PullStream "string list" "error option"

text \<open>
  Modelled from the spec: the registry behind \<open>dxf_base\<close>, the external collaborator
  of the specification. \<open>resolve\<close> is what constructing a \<open>Manifest\<close> for an image and
  calling its \<open>get_list_of_blobs\<close> (both of \<open>docker_charon.common\<close>) yields: the
  manifest content and the blobs it references, or the registry's error. \<open>pull_blob\<close>
  is the call of the \<open>dxf\<close> library, by repository and digest. The registry answers
  the same request the same way throughout a run.
\<close>

record registry =
  resolve :: "string \<Rightarrow> error + manifest_content \<times> blob list"
  pull_blob :: "string \<Rightarrow> string \<Rightarrow> pull_result"

text \<open>
  Modelled from the spec: what \<open>encoder.py\<close> uses of \<open>docker_charon.common\<close> besides the
  classes, taken as parameters. \<open>manifest_path\<close> is the archive path recorded for an
  image's manifest (deterministic, derived from the image name); \<open>PYDANTIC_V2\<close> chooses
  between the two serialisers of the descriptor, \<open>model_dump_json\<close> and \<open>json\<close>.
\<close>

record common =
  manifest_path :: "string \<Rightarrow> string"
  PYDANTIC_V2 :: bool
  model_dump_json :: "payload_descriptor \<Rightarrow> string"
  json_v1 :: "payload_descriptor \<Rightarrow> string"

text \<open>
  Everything the run does to the outside world, in the order it happens: a manifest
  resolution for an image, a blob pull from a repository, and an entry written into
  the archive (path and bytes). Progress messages on \<open>stderr\<close> are not recorded.
\<close>

datatype event =
  Resolve string
  | PullBlob string string
  | ZipWrite string string

type_synonym trace = "event list"

section \<open>The functions of \<open>encoder.py\<close>\<close>

subsection \<open>\<open>get_blob_with_same_digest\<close>\<close>

fun get_blob_with_same_digest :: "blob list \<Rightarrow> string \<Rightarrow> blob option" where
  "get_blob_with_same_digest [] d = None"
| "get_blob_with_same_digest (b # list_of_blobs) d =
     (if digest b = d then Some b else get_blob_with_same_digest list_of_blobs d)"

subsection \<open>\<open>download_blob_to_zip\<close>\<close>

text \<open>
  The pull is requested first; then the entry \<open>blobs/<digest>\<close> is opened and the
  chunks are written into it. When the iterator raises, the \<open>with\<close> block closes the
  entry with the chunks written so far and the exception propagates.
\<close>

definition download_blob_to_zip :: "registry \<Rightarrow> blob \<Rightarrow> trace \<Rightarrow> (error + string) \<times> trace" where
  "download_blob_to_zip dxf_base b tr =
     (case pull_blob dxf_base (repository b) (digest b) of
        PullRaises e \<Rightarrow> (Inl e, tr @ [PullBlob (repository b) (digest b)])
      | PullStream chunks failure \<Rightarrow>
          (let blob_path_in_zip = ''blobs/'' @ digest b;
               tr' = tr @ [PullBlob (repository b) (digest b),
                           ZipWrite blob_path_in_zip (concat chunks)]
           in case failure of
                Some e \<Rightarrow> (Inl e, tr')
              | None \<Rightarrow> (Inr blob_path_in_zip, tr')))"

subsection \<open>\<open>add_blobs_to_zip\<close>\<close>

fun add_blobs_loop ::
  "registry \<Rightarrow> blob list \<Rightarrow> blobs_paths_dict \<Rightarrow> blob list \<Rightarrow> trace
     \<Rightarrow> (error + blobs_paths_dict) \<times> trace" where
  "add_blobs_loop dxf_base blobs_already_transferred paths [] tr = (Inr paths, tr)"
| "add_blobs_loop dxf_base blobs_already_transferred paths (b # rest) tr =
     (if digest b \<in> set (map fst paths)
      then add_blobs_loop dxf_base blobs_already_transferred paths rest tr
      else
        (case get_blob_with_same_digest blobs_already_transferred (digest b) of
           Some dest_blob \<Rightarrow>
             add_blobs_loop dxf_base blobs_already_transferred
               (AList.update (digest b) (BlobLocationInRegistry (repository dest_blob)) paths)
               rest tr
         | None \<Rightarrow>
             (case download_blob_to_zip dxf_base b tr of
                (Inl e, tr') \<Rightarrow> (Inl e, tr')
              | (Inr blob_path_in_zip, tr') \<Rightarrow>
                  add_blobs_loop dxf_base blobs_already_transferred
                    (AList.update (digest b) (BlobPathInZip blob_path_in_zip) paths)
                    rest tr')))"

definition add_blobs_to_zip ::
  "registry \<Rightarrow> blob list \<Rightarrow> blob list \<Rightarrow> trace \<Rightarrow> (error + blobs_paths_dict) \<times> trace" where
  "add_blobs_to_zip dxf_base blobs_to_pull blobs_already_transferred tr =
     add_blobs_loop dxf_base blobs_already_transferred [] blobs_to_pull tr"

subsection \<open>\<open>get_manifests_and_list_of_all_blobs\<close>\<close>

definition get_manifest_and_list_of_blobs_to_pull ::
  "registry \<Rightarrow> string \<Rightarrow> trace \<Rightarrow> (error + manifest \<times> blob list) \<times> trace" where
  "get_manifest_and_list_of_blobs_to_pull dxf_base docker_image tr =
     (case resolve dxf_base docker_image of
        Inl e \<Rightarrow> (Inl e, tr @ [Resolve docker_image])
      | Inr (c, blobs) \<Rightarrow>
          (Inr (\<lparr>docker_image_name = docker_image, content = c\<rparr>, blobs),
           tr @ [Resolve docker_image]))"

fun get_manifests_loop ::
  "registry \<Rightarrow> manifest list \<Rightarrow> blob list \<Rightarrow> string list \<Rightarrow> trace
     \<Rightarrow> (error + manifest list \<times> blob list) \<times> trace" where
  "get_manifests_loop dxf_base manifests blobs_to_pull [] tr = (Inr (manifests, blobs_to_pull), tr)"
| "get_manifests_loop dxf_base manifests blobs_to_pull (docker_image # rest) tr =
     (case get_manifest_and_list_of_blobs_to_pull dxf_base docker_image tr of
        (Inl e, tr') \<Rightarrow> (Inl e, tr')
      | (Inr (m, blobs), tr') \<Rightarrow>
          get_manifests_loop dxf_base (manifests @ [m]) (blobs_to_pull @ blobs) rest tr')"

definition get_manifests_and_list_of_all_blobs ::
  "registry \<Rightarrow> string list \<Rightarrow> trace \<Rightarrow> (error + manifest list \<times> blob list) \<times> trace" where
  "get_manifests_and_list_of_all_blobs dxf_base docker_images tr =
     get_manifests_loop dxf_base [] [] docker_images tr"

subsection \<open>\<open>uniquify_blobs\<close>\<close>

fun uniquify_loop :: "blob list \<Rightarrow> blob list \<Rightarrow> blob list" where
  "uniquify_loop result [] = result"
| "uniquify_loop result (b # blobs) =
     (if digest b \<notin> set (map digest result)
      then uniquify_loop (result @ [b]) blobs
      else uniquify_loop result blobs)"

definition uniquify_blobs :: "blob list \<Rightarrow> blob list" where
  "uniquify_blobs blobs = uniquify_loop [] blobs"

subsection \<open>\<open>separate_images_to_transfer_and_images_to_skip\<close>\<close>

fun separate_loop ::
  "string list \<Rightarrow> string list \<Rightarrow> string list \<Rightarrow> string list \<Rightarrow> string list \<times> string list" where
  "separate_loop already with_blobs to_skip [] = (with_blobs, to_skip)"
| "separate_loop already with_blobs to_skip (docker_image # rest) =
     (if docker_image \<notin> set already
      then separate_loop already (with_blobs @ [docker_image]) to_skip rest
      else separate_loop already with_blobs (to_skip @ [docker_image]) rest)"

definition separate_images_to_transfer_and_images_to_skip ::
  "string list \<Rightarrow> string list \<Rightarrow> string list \<times> string list" where
  "separate_images_to_transfer_and_images_to_skip docker_images_to_transfer
       docker_images_already_transferred =
     separate_loop docker_images_already_transferred [] [] docker_images_to_transfer"

subsection \<open>\<open>PayloadDescriptor\<close>\<close>

text \<open>
  Modelled from the spec: \<open>PayloadDescriptor.from_images\<close> and
  \<open>get_images_not_transferred_yet\<close> live in \<open>docker_charon.common\<close>. Following the
  planner's first step, the images to transfer are partitioned into the ones that need
  work and the ones skipped; the descriptor holds the list of images, an archive path
  for the manifest of every image that needs work, no blob placement yet, and the
  skipped images. The images not transferred yet are the listed images that are not
  skipped.
\<close>

definition from_images :: "common \<Rightarrow> string list \<Rightarrow> string list \<Rightarrow> payload_descriptor" where
  "from_images cm docker_images_to_transfer docker_images_already_transferred =
     (case separate_images_to_transfer_and_images_to_skip docker_images_to_transfer
             docker_images_already_transferred of
        (needs_work, skip) \<Rightarrow>
          \<lparr>images = docker_images_to_transfer,
           manifests_paths =
             fold (\<lambda>img. AList.update img (manifest_path cm img)) needs_work [],
           blobs_paths = [],
           skipped_images = skip\<rparr>)"

definition get_images_not_transferred_yet :: "payload_descriptor \<Rightarrow> string list" where
  "get_images_not_transferred_yet pd =
     filter (\<lambda>img. img \<notin> set (skipped_images pd)) (images pd)"

subsection \<open>\<open>create_zip_from_docker_images\<close>\<close>

text \<open>
  Lines 145 to 148. On a \<open>dict\<close>, \<open>in\<close> tests for a key and indexing reads it. On a
  \<open>str\<close>, \<open>in\<close> is the substring test, and indexing a \<open>str\<close> with a \<open>str\<close> raises
  \<open>TypeError\<close>.
\<close>

fun single_manifest_of :: "manifest_content \<Rightarrow> error + manifest_content" where
  "single_manifest_of (MultiArchIndex idx) =
     (case idx ''linux/amd64'' of
        Some m \<Rightarrow> Inr (SingleManifest m)
      | None \<Rightarrow> Inr (MultiArchIndex idx))"
| "single_manifest_of (SingleManifest s) =
     (if sublist ''linux/amd64'' s then Inl TypeError else Inr (SingleManifest s))"

text \<open>
  \<open>ZipFile.writestr\<close> stores a \<open>str\<close>. Given a \<open>dict\<close> it opens the entry, fails with
  \<open>TypeError\<close> on the first write and closes the entry empty.
\<close>

fun writestr :: "string \<Rightarrow> manifest_content \<Rightarrow> trace \<Rightarrow> (error + unit) \<times> trace" where
  "writestr arcname (SingleManifest data) tr = (Inr (), tr @ [ZipWrite arcname data])"
| "writestr arcname (MultiArchIndex idx) tr = (Inl TypeError, tr @ [ZipWrite arcname []])"

fun write_manifests ::
  "payload_descriptor \<Rightarrow> manifest list \<Rightarrow> trace \<Rightarrow> (error + unit) \<times> trace" where
  "write_manifests pd [] tr = (Inr (), tr)"
| "write_manifests pd (m # manifests) tr =
     (case map_of (manifests_paths pd) (docker_image_name m) of
        None \<Rightarrow> (Inl KeyError, tr)
      | Some dest \<Rightarrow>
          (case single_manifest_of (content m) of
             Inl e \<Rightarrow> (Inl e, tr)
           | Inr single_manifest \<Rightarrow>
               (case writestr dest single_manifest tr of
                  (Inl e, tr') \<Rightarrow> (Inl e, tr')
                | (Inr u, tr') \<Rightarrow> write_manifests pd manifests tr')))"

definition payload_descriptor_json :: "common \<Rightarrow> payload_descriptor \<Rightarrow> string" where
  "payload_descriptor_json cm pd =
     (if PYDANTIC_V2 cm then model_dump_json cm pd else json_v1 cm pd)"

definition create_zip_from_docker_images ::
  "common \<Rightarrow> registry \<Rightarrow> string list \<Rightarrow> string list \<Rightarrow> trace \<Rightarrow> (error + unit) \<times> trace" where
  "create_zip_from_docker_images cm dxf_base docker_images_to_transfer
       docker_images_already_transferred tr =
     (let pd = from_images cm docker_images_to_transfer docker_images_already_transferred
      in case get_manifests_and_list_of_all_blobs dxf_base
                (get_images_not_transferred_yet pd) tr of
           (Inl e, tr1) \<Rightarrow> (Inl e, tr1)
         | (Inr (manifests, blobs_to_pull), tr1) \<Rightarrow>
             (case get_manifests_and_list_of_all_blobs dxf_base
                     docker_images_already_transferred tr1 of
                (Inl e, tr2) \<Rightarrow> (Inl e, tr2)
              | (Inr (unused, blobs_already_transferred), tr2) \<Rightarrow>
                  (case add_blobs_to_zip dxf_base blobs_to_pull blobs_already_transferred tr2 of
                     (Inl e, tr3) \<Rightarrow> (Inl e, tr3)
                   | (Inr bp, tr3) \<Rightarrow>
                       (case write_manifests (pd\<lparr>blobs_paths := bp\<rparr>) manifests tr3 of
                          (Inl e, tr4) \<Rightarrow> (Inl e, tr4)
                        | (Inr u, tr4) \<Rightarrow>
                            (Inr (),
                             tr4 @ [ZipWrite ''payload_descriptor.json''
                                      (payload_descriptor_json cm (pd\<lparr>blobs_paths := bp\<rparr>))])))))"

section \<open>Auxiliary definitions\<close>

text \<open>
  The blobs of a list whose digest is neither in \<open>seen\<close> nor borne by an earlier blob
  of the list. The proofs use it to describe what the loops of \<open>uniquify_blobs\<close> and
  \<open>add_blobs_to_zip\<close> do with a list when some digests are already known.
\<close>

fun new_blobs :: "string set \<Rightarrow> blob list \<Rightarrow> blob list" where
  "new_blobs seen [] = []"
| "new_blobs seen (b # bs) =
     (if digest b \<in> seen then new_blobs seen bs
      else b # new_blobs (insert (digest b) seen) bs)"

section \<open>Example inputs\<close>

text \<open>
  A registry with four images: two single manifests that share a blob, a
  multi-architecture index, and a single manifest whose text mentions
  \<open>linux/amd64\<close>. Every other image is unknown to it. Every pull succeeds.
\<close>

definition example_registry :: registry where
  "example_registry =
     \<lparr>resolve = (\<lambda>img.
        if img = ''app:1.0'' then
          Inr (SingleManifest ''manifest of app'', [\<lparr>digest = ''sha256:abc'', repository = ''app''\<rparr>])
        else if img = ''base:1.0'' then
          Inr (SingleManifest ''manifest of base'', [\<lparr>digest = ''sha256:abc'', repository = ''base''\<rparr>])
        else if img = ''multi:1.0'' then
          Inr (MultiArchIndex [''linux/amd64'' \<mapsto> ''M1'', ''linux/arm64'' \<mapsto> ''M2''],
               [\<lparr>digest = ''sha256:abc'', repository = ''multi''\<rparr>,
                \<lparr>digest = ''sha256:def'', repository = ''multi''\<rparr>])
        else if img = ''noted:1.0'' then
          Inr (SingleManifest ''manifest built for linux/amd64'',
               [\<lparr>digest = ''sha256:abc'', repository = ''noted''\<rparr>])
        else Inl ManifestNotFoundError),
      pull_blob = (\<lambda>repo d. PullStream [''bytes of '', d] None)\<rparr>"

definition example_common :: common where
  "example_common =
     \<lparr>manifest_path = (\<lambda>img. ''manifests/'' @ img),
      PYDANTIC_V2 = True,
      model_dump_json = (\<lambda>pd. ''descriptor''),
      json_v1 = (\<lambda>pd. ''descriptor'')\<rparr>"

definition example_blobs :: "blob list" where
  "example_blobs =
     [\<lparr>digest = ''X'', repository = ''a''\<rparr>,
      \<lparr>digest = ''Y'', repository = ''a''\<rparr>,
      \<lparr>digest = ''X'', repository = ''b''\<rparr>]"

text \<open>
  Two tags of one repository that share a layer: the first and the third blob are
  equal as values.
\<close>

definition example_tags :: "blob list" where
  "example_tags =
     [\<lparr>digest = ''X'', repository = ''a''\<rparr>,
      \<lparr>digest = ''Y'', repository = ''a''\<rparr>,
      \<lparr>digest = ''X'', repository = ''a''\<rparr>]"

definition example_already :: "blob list" where
  "example_already =
     [\<lparr>digest = ''Y'', repository = ''r''\<rparr>,
      \<lparr>digest = ''Y'', repository = ''s''\<rparr>]"

section \<open>Deduplication\<close>

lemma uniquify_loop_new_blobs:
  "uniquify_loop result bs = result @ new_blobs (digest ` set result) bs"
  by (induction bs arbitrary: result) auto

lemma uniquify_blobs_new_blobs: "uniquify_blobs bs = new_blobs {} bs"
  by (simp add: uniquify_blobs_def uniquify_loop_new_blobs)

lemma new_blobs_subseq: "subseq (new_blobs seen bs) bs"
  by (induction bs arbitrary: seen) auto

lemma new_blobs_digests: "digest ` set (new_blobs seen bs) = digest ` set bs - seen"
  by (induction bs arbitrary: seen) auto

lemma new_blobs_distinct: "distinct (map digest (new_blobs seen bs))"
  by (induction bs arbitrary: seen) (auto simp: new_blobs_digests)

lemma new_blobs_find:
  "d \<notin> seen \<Longrightarrow> find (\<lambda>b. digest b = d) (new_blobs seen bs) = find (\<lambda>b. digest b = d) bs"
  by (induction bs arbitrary: seen) auto

lemma new_blobs_id:
  "distinct (map digest xs) \<Longrightarrow> digest ` set xs \<inter> seen = {} \<Longrightarrow> new_blobs seen xs = xs"
  by (induction xs arbitrary: seen) auto

lemma new_blobs_idem: "new_blobs seen (new_blobs seen bs) = new_blobs seen bs"
  by (rule new_blobs_id) (auto simp: new_blobs_distinct new_blobs_digests)

lemma filter_digest_count:
  "distinct (map digest xs) \<Longrightarrow> d \<in> digest ` set xs \<Longrightarrow> length (filter (\<lambda>b. digest b = d) xs) = 1"
proof (induction xs)
  case Nil
  then show ?case by simp
next
  case (Cons x xs)
  show ?case
  proof (cases "digest x = d")
    case True
    with Cons.prems have "filter (\<lambda>b. digest b = d) xs = []"
      by (auto simp: filter_empty_conv image_iff)
    with True show ?thesis by simp
  next
    case False
    with Cons show ?thesis by auto
  qed
qed

lemma new_blobs_positions:
  "new_blobs seen bs =
     nths bs {i. i < length bs \<and> digest (bs ! i) \<notin> seen
                \<and> (\<forall>j<i. digest (bs ! j) \<noteq> digest (bs ! i))}"
proof (induction bs arbitrary: seen)
  case Nil
  show ?case by simp
next
  case (Cons b bs)
  let ?A = "{i. i < length (b # bs) \<and> digest ((b # bs) ! i) \<notin> seen
                \<and> (\<forall>j<i. digest ((b # bs) ! j) \<noteq> digest ((b # bs) ! i))}"
  have zero: "0 \<in> ?A \<longleftrightarrow> digest b \<notin> seen" by simp
  have shift: "{j. Suc j \<in> ?A} =
      {j. j < length bs \<and> digest (bs ! j) \<notin> insert (digest b) seen
            \<and> (\<forall>k<j. digest (bs ! k) \<noteq> digest (bs ! j))}"
    by (auto simp: All_less_Suc2)
  show ?case
  proof (cases "digest b \<in> seen")
    case True
    then have "insert (digest b) seen = seen" by auto
    with True zero shift Cons.IH [of seen] show ?thesis
      by (simp add: nths_Cons)
  next
    case False
    with zero shift Cons.IH [of "insert (digest b) seen"] show ?thesis
      by (simp add: nths_Cons)
  qed
qed

lemma uniquify_blobs_positions:
  "uniquify_blobs blobs =
     nths blobs {i. i < length blobs \<and> (\<forall>j<i. digest (blobs ! j) \<noteq> digest (blobs ! i))}"
  by (simp add: uniquify_blobs_new_blobs new_blobs_positions)

lemma example_tags_positions:
  "{i. i < length example_tags
       \<and> (\<forall>j<i. digest (example_tags ! j) \<noteq> digest (example_tags ! i))} = {0, 1}"
proof -
  have len: "length example_tags = Suc (Suc (Suc 0))" by (simp add: example_tags_def)
  have n0: "digest (example_tags ! 0) = ''X''"
    and n1: "digest (example_tags ! Suc 0) = ''Y''"
    and n2: "digest (example_tags ! Suc (Suc 0)) = ''X''"
    by (simp_all add: example_tags_def)
  have "i < length example_tags \<and> (\<forall>j<i. digest (example_tags ! j) \<noteq> digest (example_tags ! i))
          \<longleftrightarrow> i = 0 \<or> i = Suc 0" for i
  proof (cases "i = 0 \<or> i = Suc 0")
    case True
    then show ?thesis by (auto simp: len n0 n1)
  next
    case False
    show ?thesis
    proof (cases "i = Suc (Suc 0)")
      case True
      have "0 < i" using True by simp
      moreover have "digest (example_tags ! 0) = digest (example_tags ! i)"
        using True by (simp add: n0 n2)
      ultimately have "\<not> (\<forall>j<i. digest (example_tags ! j) \<noteq> digest (example_tags ! i))"
        by blast
      with False show ?thesis by simp
    next
      case big: False
      with False have "\<not> i < length example_tags" unfolding len by arith
      with False show ?thesis by simp
    qed
  qed
  then show ?thesis by auto
qed

text \<open>
  C4. \<open>uniquify_blobs\<close> returns the blobs in first-occurrence order with later
  duplicates dropped. Positionally: the output is the input restricted to the
  positions \<open>i\<close> at which no earlier position bears the same digest (\<open>nths xs A\<close> is
  the list of the elements of \<open>xs\<close> at the positions in \<open>A\<close>, in their order). So
  the output is a subsequence of the input, no two of its entries have the same
  digest, every digest of the input is borne by exactly one blob of the output, which
  is the first input blob bearing it, and applying the function twice gives the same
  list as applying it once.
\<close>

theorem uniquify_blobs_first_occurrences:
  "uniquify_blobs blobs
     = nths blobs {i. i < length blobs \<and> (\<forall>j<i. digest (blobs ! j) \<noteq> digest (blobs ! i))}
   \<and> subseq (uniquify_blobs blobs) blobs
   \<and> distinct (map digest (uniquify_blobs blobs))
   \<and> (\<forall>d. d \<in> digest ` set blobs \<longrightarrow>
          length (filter (\<lambda>b. digest b = d) (uniquify_blobs blobs)) = 1
          \<and> find (\<lambda>b. digest b = d) (uniquify_blobs blobs) = find (\<lambda>b. digest b = d) blobs)
   \<and> uniquify_blobs (uniquify_blobs blobs) = uniquify_blobs blobs"
proof -
  have d: "distinct (map digest (new_blobs {} blobs))"
    by (rule new_blobs_distinct)
  have "length (filter (\<lambda>b. digest b = d) (new_blobs {} blobs)) = 1"
    if "d \<in> digest ` set blobs" for d
    using that by (intro filter_digest_count [OF d]) (simp add: new_blobs_digests)
  then have rest: "subseq (uniquify_blobs blobs) blobs
   \<and> distinct (map digest (uniquify_blobs blobs))
   \<and> (\<forall>d. d \<in> digest ` set blobs \<longrightarrow>
          length (filter (\<lambda>b. digest b = d) (uniquify_blobs blobs)) = 1
          \<and> find (\<lambda>b. digest b = d) (uniquify_blobs blobs) = find (\<lambda>b. digest b = d) blobs)
   \<and> uniquify_blobs (uniquify_blobs blobs) = uniquify_blobs blobs"
    by (simp add: uniquify_blobs_new_blobs new_blobs_subseq new_blobs_distinct
        new_blobs_find new_blobs_idem)
  with uniquify_blobs_positions [of blobs] show ?thesis by blast
qed

theorem uniquify_blobs_first_occurrences_witness:
  "uniquify_blobs example_tags
     = nths example_tags
         {i. i < length example_tags
             \<and> (\<forall>j<i. digest (example_tags ! j) \<noteq> digest (example_tags ! i))}
   \<and> {i. i < length example_tags
          \<and> (\<forall>j<i. digest (example_tags ! j) \<noteq> digest (example_tags ! i))} = {0, 1}
   \<and> uniquify_blobs example_tags
       = [\<lparr>digest = ''X'', repository = ''a''\<rparr>, \<lparr>digest = ''Y'', repository = ''a''\<rparr>]
   \<and> subseq (uniquify_blobs example_tags) example_tags
   \<and> ''X'' \<in> digest ` set example_tags
   \<and> length (filter (\<lambda>b. digest b = ''X'') (uniquify_blobs example_tags)) = 1
   \<and> find (\<lambda>b. digest b = ''X'') (uniquify_blobs example_tags)
       = Some \<lparr>digest = ''X'', repository = ''a''\<rparr>"
proof -
  have run: "uniquify_blobs example_tags
       = [\<lparr>digest = ''X'', repository = ''a''\<rparr>, \<lparr>digest = ''Y'', repository = ''a''\<rparr>]"
    by (simp add: uniquify_blobs_def example_tags_def)
  have x: "''X'' \<in> digest ` set example_tags"
    by (simp add: example_tags_def)
  note inst = uniquify_blobs_first_occurrences [of example_tags]
  from inst have pos: "uniquify_blobs example_tags
     = nths example_tags
         {i. i < length example_tags
             \<and> (\<forall>j<i. digest (example_tags ! j) \<noteq> digest (example_tags ! i))}"
    by (rule conjunct1)
  from inst x have others: "subseq (uniquify_blobs example_tags) example_tags
     \<and> length (filter (\<lambda>b. digest b = ''X'') (uniquify_blobs example_tags)) = 1
     \<and> find (\<lambda>b. digest b = ''X'') (uniquify_blobs example_tags)
         = find (\<lambda>b. digest b = ''X'') example_tags"
    by blast
  have f: "find (\<lambda>b. digest b = ''X'') example_tags = Some \<lparr>digest = ''X'', repository = ''a''\<rparr>"
    by (simp add: example_tags_def)
  from others f have others': "subseq (uniquify_blobs example_tags) example_tags
     \<and> length (filter (\<lambda>b. digest b = ''X'') (uniquify_blobs example_tags)) = 1
     \<and> find (\<lambda>b. digest b = ''X'') (uniquify_blobs example_tags)
         = Some \<lparr>digest = ''X'', repository = ''a''\<rparr>"
    by simp
  show ?thesis
    by (rule conjI [OF pos conjI [OF example_tags_positions conjI [OF run
          conjI [OF others' [THEN conjunct1] conjI [OF x others' [THEN conjunct2]]]]]])
qed

section \<open>Blob lookup\<close>

lemma update_fresh: "k \<notin> fst ` set al \<Longrightarrow> AList.update k v al = al @ [(k, v)]"
  by (induction al) auto

lemma get_blob_with_same_digest_find:
  "get_blob_with_same_digest bs d = find (\<lambda>b. digest b = d) bs"
  by (induction bs) auto


lemma get_blob_with_same_digest_Some:
  "get_blob_with_same_digest bs d = Some b \<Longrightarrow> digest b = d \<and> b \<in> set bs"
  by (induction bs) (auto split: if_splits)


lemma get_blob_with_same_digest_uniquify:
  "get_blob_with_same_digest (uniquify_blobs bs) d = get_blob_with_same_digest bs d"
  by (simp add: get_blob_with_same_digest_find uniquify_blobs_new_blobs new_blobs_find)

lemma download_Inr:
  "download_blob_to_zip reg b tr = (Inr p, tr') \<Longrightarrow>
   p = ''blobs/'' @ digest b \<and>
   (\<exists>chunks. pull_blob reg (repository b) (digest b) = PullStream chunks None \<and>
     tr' = tr @ [PullBlob (repository b) (digest b), ZipWrite (''blobs/'' @ digest b) (concat chunks)])"
  by (auto simp: download_blob_to_zip_def Let_def split: pull_result.splits option.splits)

lemma download_trace:
  "download_blob_to_zip reg b tr = (r, tr') \<Longrightarrow>
   \<exists>evs. tr' = tr @ evs \<and>
     (\<forall>ev \<in> set evs. ev = PullBlob (repository b) (digest b)
        \<or> (\<exists>data. ev = ZipWrite (''blobs/'' @ digest b) data))"
  by (auto simp: download_blob_to_zip_def Let_def split: pull_result.splits option.splits)

lemma download_frame:
  "download_blob_to_zip reg b tr =
     (fst (download_blob_to_zip reg b []), tr @ snd (download_blob_to_zip reg b []))"
  by (auto simp: download_blob_to_zip_def Let_def split: pull_result.splits option.splits)

lemma add_blobs_loop_cong:
  "(\<And>d. get_blob_with_same_digest T d = get_blob_with_same_digest T' d) \<Longrightarrow>
   add_blobs_loop reg T bp B tr = add_blobs_loop reg T' bp B tr"
  by (induction B arbitrary: bp tr) (auto split: option.splits prod.splits sum.splits)

lemma add_blobs_loop_new_blobs:
  "add_blobs_loop reg T bp B tr = add_blobs_loop reg T bp (new_blobs (fst ` set bp) B) tr"
proof (induction B arbitrary: bp tr)
  case Nil
  show ?case by simp
next
  case (Cons b B)
  have keys: "fst ` set (AList.update (digest b) v bp) = insert (digest b) (fst ` set bp)" for v
    by (simp add: dom_update)
  show ?case
  proof (cases "digest b \<in> fst ` set bp")
    case True
    then show ?thesis using Cons.IH [of bp tr] by simp
  next
    case False
    then show ?thesis
      using Cons.IH keys
      by (simp split: option.splits prod.splits sum.splits)
  qed
qed

section \<open>The classification loop\<close>

lemma add_blobs_loop_result:
  "add_blobs_loop reg T bp B tr = (Inr m, tr') \<Longrightarrow>
   m = bp @ map (\<lambda>b. (digest b,
                case get_blob_with_same_digest T (digest b) of
                  Some dest_blob \<Rightarrow> BlobLocationInRegistry (repository dest_blob)
                | None \<Rightarrow> BlobPathInZip (''blobs/'' @ digest b)))
              (new_blobs (fst ` set bp) B)"
proof (induction B arbitrary: bp tr)
  case Nil
  then show ?case by simp
next
  case (Cons b B)
  show ?case
  proof (cases "digest b \<in> fst ` set bp")
    case True
    then show ?thesis using Cons.IH [of bp tr] Cons.prems by simp
  next
    case False
    note fresh = update_fresh [OF False]
    show ?thesis
    proof (cases "get_blob_with_same_digest T (digest b)")
      case (Some dest_blob)
      with False Cons.prems
      have "add_blobs_loop reg T (bp @ [(digest b, BlobLocationInRegistry (repository dest_blob))]) B tr
              = (Inr m, tr')"
        by (simp add: fresh)
      from Cons.IH [OF this] False Some show ?thesis
        by (simp add: insert_commute)
    next
      case None
      with False Cons.prems obtain p tr1 where
        dl: "download_blob_to_zip reg b tr = (Inr p, tr1)" and
        rec: "add_blobs_loop reg T (bp @ [(digest b, BlobPathInZip p)]) B tr1 = (Inr m, tr')"
        by (auto simp: fresh split: prod.splits sum.splits)
      from download_Inr [OF dl] have p: "p = ''blobs/'' @ digest b" by simp
      from Cons.IH [OF rec] False None p show ?thesis
        by (simp add: insert_commute)
    qed
  qed
qed

lemma add_blobs_loop_trace_ok:
  "add_blobs_loop reg T bp B tr = (Inr m, tr') \<Longrightarrow>
   tr' = tr @ concat (map (\<lambda>b. snd (download_blob_to_zip reg b []))
                  (filter (\<lambda>b. get_blob_with_same_digest T (digest b) = None)
                     (new_blobs (fst ` set bp) B)))"
proof (induction B arbitrary: bp tr)
  case Nil
  then show ?case by simp
next
  case (Cons b B)
  have keys: "fst ` set (AList.update (digest b) v bp) = insert (digest b) (fst ` set bp)" for v
    by (simp add: dom_update)
  show ?case
  proof (cases "digest b \<in> fst ` set bp")
    case True
    then show ?thesis using Cons.IH [of bp tr] Cons.prems by simp
  next
    case False
    show ?thesis
    proof (cases "get_blob_with_same_digest T (digest b)")
      case (Some dest_blob)
      with False Cons.prems
      have "add_blobs_loop reg T
              (AList.update (digest b) (BlobLocationInRegistry (repository dest_blob)) bp) B tr
              = (Inr m, tr')"
        by simp
      from Cons.IH [OF this] False Some show ?thesis
        by (simp add: keys)
    next
      case None
      with False Cons.prems obtain p tr1 where
        dl: "download_blob_to_zip reg b tr = (Inr p, tr1)" and
        rec: "add_blobs_loop reg T (AList.update (digest b) (BlobPathInZip p) bp) B tr1 = (Inr m, tr')"
        by (auto split: prod.splits sum.splits)
      from dl have tr1: "tr1 = tr @ snd (download_blob_to_zip reg b [])"
        using download_frame [of reg b tr] by simp
      from Cons.IH [OF rec] False None tr1 show ?thesis
        by (simp add: keys)
    qed
  qed
qed

lemma add_blobs_loop_pulls_ok:
  "add_blobs_loop reg T bp B tr = (Inr m, tr') \<Longrightarrow>
   b \<in> set (new_blobs (fst ` set bp) B) \<Longrightarrow>
   get_blob_with_same_digest T (digest b) = None \<Longrightarrow>
   \<exists>chunks. pull_blob reg (repository b) (digest b) = PullStream chunks None"
proof (induction B arbitrary: bp tr)
  case Nil
  then show ?case by simp
next
  case (Cons x B)
  have keys: "fst ` set (AList.update (digest x) v bp) = insert (digest x) (fst ` set bp)" for v
    by (simp add: dom_update)
  show ?case
  proof (cases "digest x \<in> fst ` set bp")
    case True
    then show ?thesis using Cons.IH [of bp tr] Cons.prems by simp
  next
    case False
    show ?thesis
    proof (cases "get_blob_with_same_digest T (digest x)")
      case (Some dest_blob)
      with False Cons.prems
      have rec: "add_blobs_loop reg T
              (AList.update (digest x) (BlobLocationInRegistry (repository dest_blob)) bp) B tr
              = (Inr m, tr')"
        by simp
      from Cons.prems False Some have "b \<in> set (new_blobs (insert (digest x) (fst ` set bp)) B)"
        by auto
      with Cons.IH [OF rec] Cons.prems(3) show ?thesis
        by (simp add: keys)
    next
      case None
      with False Cons.prems obtain p tr1 where
        dl: "download_blob_to_zip reg x tr = (Inr p, tr1)" and
        rec: "add_blobs_loop reg T (AList.update (digest x) (BlobPathInZip p) bp) B tr1 = (Inr m, tr')"
        by (auto split: prod.splits sum.splits)
      show ?thesis
      proof (cases "b = x")
        case True
        with download_Inr [OF dl] show ?thesis by auto
      next
        case neq: False
        with Cons.prems False have "b \<in> set (new_blobs (insert (digest x) (fst ` set bp)) B)"
          by auto
        with Cons.IH [OF rec] Cons.prems(3) show ?thesis
          by (simp add: keys)
      qed
    qed
  qed
qed

lemma add_blobs_loop_trace_any:
  "add_blobs_loop reg T bp B tr = (r, tr') \<Longrightarrow>
   \<exists>evs. tr' = tr @ evs \<and>
     (\<forall>ev \<in> set evs. \<exists>b \<in> set B. get_blob_with_same_digest T (digest b) = None \<and>
        (ev = PullBlob (repository b) (digest b)
         \<or> (\<exists>data. ev = ZipWrite (''blobs/'' @ digest b) data)))"
proof (induction B arbitrary: bp tr)
  case Nil
  then show ?case by simp
next
  case (Cons x B)
  show ?case
  proof (cases "digest x \<in> fst ` set bp")
    case True
    with Cons.prems have "add_blobs_loop reg T bp B tr = (r, tr')" by simp
    from Cons.IH [OF this] show ?thesis by auto
  next
    case False
    show ?thesis
    proof (cases "get_blob_with_same_digest T (digest x)")
      case (Some dest_blob)
      with False Cons.prems
      have "add_blobs_loop reg T
              (AList.update (digest x) (BlobLocationInRegistry (repository dest_blob)) bp) B tr
              = (r, tr')"
        by simp
      from Cons.IH [OF this] show ?thesis by auto
    next
      case None
      obtain r1 tr1 where dl: "download_blob_to_zip reg x tr = (r1, tr1)"
        by (cases "download_blob_to_zip reg x tr")
      from download_trace [OF dl] obtain evs1 where
        tr1: "tr1 = tr @ evs1" and
        evs1: "\<forall>ev \<in> set evs1. ev = PullBlob (repository x) (digest x)
                 \<or> (\<exists>data. ev = ZipWrite (''blobs/'' @ digest x) data)"
        by blast
      show ?thesis
      proof (cases r1)
        case (Inl e)
        with False None dl Cons.prems have "tr' = tr1" by simp
        with tr1 evs1 None show ?thesis by auto
      next
        case (Inr p)
        with False None dl Cons.prems
        have "add_blobs_loop reg T (AList.update (digest x) (BlobPathInZip p) bp) B tr1 = (r, tr')"
          by simp
        from Cons.IH [OF this] obtain evs2 where
          tr': "tr' = tr1 @ evs2" and
          evs2: "\<forall>ev \<in> set evs2. \<exists>b \<in> set B. get_blob_with_same_digest T (digest b) = None \<and>
                   (ev = PullBlob (repository b) (digest b)
                    \<or> (\<exists>data. ev = ZipWrite (''blobs/'' @ digest b) data))"
          by blast
        have "tr' = tr @ (evs1 @ evs2)" using tr' tr1 by simp
        moreover have "\<forall>ev \<in> set (evs1 @ evs2). \<exists>b \<in> set (x # B).
             get_blob_with_same_digest T (digest b) = None \<and>
             (ev = PullBlob (repository b) (digest b)
              \<or> (\<exists>data. ev = ZipWrite (''blobs/'' @ digest b) data))"
          using evs1 evs2 None by auto
        ultimately show ?thesis by blast
      qed
    qed
  qed
qed

lemma map_of_digest_keyed:
  "map_of (map (\<lambda>b. (digest b, f b)) xs) d = map_option f (find (\<lambda>b. digest b = d) xs)"
  by (induction xs) auto

lemma filter_concat_one:
  "distinct (map digest xs) \<Longrightarrow> b \<in> set xs \<Longrightarrow>
   (\<And>x. x \<in> set xs \<Longrightarrow> digest x \<noteq> digest b \<Longrightarrow> filter P (f x) = []) \<Longrightarrow>
   filter P (concat (map f xs)) = filter P (f b)"
proof (induction xs)
  case Nil
  then show ?case by simp
next
  case (Cons x xs)
  show ?case
  proof (cases "b = x")
    case True
    have "filter P (f y) = []" if "y \<in> set xs" for y
    proof -
      from that Cons.prems(1) True have "digest y \<noteq> digest b" by (auto simp: image_iff)
      with that Cons.prems(3) show ?thesis by simp
    qed
    then have "filter P (concat (map f xs)) = []"
      by (induction xs) auto
    with True show ?thesis by simp
  next
    case False
    with Cons.prems have b: "b \<in> set xs" by simp
    with Cons.prems(1) have "digest x \<noteq> digest b" by (auto simp: image_iff)
    with Cons.prems(3) have "filter P (f x) = []" by simp
    moreover have "filter P (concat (map f xs)) = filter P (f b)"
      using Cons.IH b Cons.prems by simp
    ultimately show ?thesis by simp
  qed
qed

lemma find_Some_digest:
  "find (\<lambda>x. digest x = d) xs = Some b \<Longrightarrow> digest b = d \<and> b \<in> set xs"
  by (induction xs) (auto split: if_splits)

lemma ex_run:
  "add_blobs_to_zip example_registry example_blobs example_already [] =
     (Inr [(''X'', BlobPathInZip ''blobs/X''), (''Y'', BlobLocationInRegistry ''r'')],
      [PullBlob ''a'' ''X'', ZipWrite ''blobs/X'' ''bytes of X''])"
  by (simp add: add_blobs_to_zip_def example_registry_def example_blobs_def example_already_def
      download_blob_to_zip_def Let_def)

text \<open>
  C1. Whenever \<open>add_blobs_to_zip\<close> returns a mapping, the mapping holds exactly one
  entry per distinct digest of the to-transfer list, in first-occurrence order. It is
  the list of first occurrences (\<open>uniquify_blobs\<close>), each with the placement of its
  digest, so later occurrences of a digest add nothing: running the function on the
  first occurrences alone returns the same mapping.
\<close>

theorem add_blobs_to_zip_one_placement_per_digest:
  assumes "add_blobs_to_zip reg B T tr = (Inr m, tr')"
  shows "distinct (map fst m)
       \<and> fst ` set m = digest ` set B
       \<and> m = map (\<lambda>b. (digest b,
                    case get_blob_with_same_digest T (digest b) of
                      Some dest_blob \<Rightarrow> BlobLocationInRegistry (repository dest_blob)
                    | None \<Rightarrow> BlobPathInZip (''blobs/'' @ digest b)))
                (uniquify_blobs B)
       \<and> fst (add_blobs_to_zip reg (uniquify_blobs B) T tr) = Inr m"
proof -
  let ?entry = "\<lambda>b. (digest b,
                    case get_blob_with_same_digest T (digest b) of
                      Some dest_blob \<Rightarrow> BlobLocationInRegistry (repository dest_blob)
                    | None \<Rightarrow> BlobPathInZip (''blobs/'' @ digest b))"
  from assms have loop: "add_blobs_loop reg T [] B tr = (Inr m, tr')"
    by (simp add: add_blobs_to_zip_def)
  from add_blobs_loop_result [OF loop] have m: "m = map ?entry (uniquify_blobs B)"
    by (simp add: uniquify_blobs_new_blobs)
  have keys: "map fst m = map digest (uniquify_blobs B)"
    by (simp add: m comp_def)
  have "distinct (map fst m)"
    by (simp only: keys uniquify_blobs_new_blobs new_blobs_distinct)
  moreover have "fst ` set m = digest ` set B"
  proof -
    have "fst ` set m = set (map fst m)" by simp
    also have "\<dots> = digest ` set (new_blobs {} B)"
      by (simp only: keys uniquify_blobs_new_blobs set_map)
    finally show ?thesis by (simp add: new_blobs_digests)
  qed
  moreover have "fst (add_blobs_to_zip reg (uniquify_blobs B) T tr) = Inr m"
    using loop add_blobs_loop_new_blobs [of reg T "[]" B tr]
    by (simp add: add_blobs_to_zip_def uniquify_blobs_new_blobs)
  ultimately show ?thesis using m by blast
qed

theorem add_blobs_to_zip_one_placement_per_digest_witness:
  "add_blobs_to_zip example_registry example_blobs example_already [] =
     (Inr [(''X'', BlobPathInZip ''blobs/X''), (''Y'', BlobLocationInRegistry ''r'')],
      [PullBlob ''a'' ''X'', ZipWrite ''blobs/X'' ''bytes of X''])
   \<and> distinct (map fst [(''X'', BlobPathInZip ''blobs/X''), (''Y'', BlobLocationInRegistry ''r'')])
   \<and> fst ` set [(''X'', BlobPathInZip ''blobs/X''), (''Y'', BlobLocationInRegistry ''r'')]
       = digest ` set example_blobs
   \<and> fst (add_blobs_to_zip example_registry (uniquify_blobs example_blobs) example_already [])
       = Inr [(''X'', BlobPathInZip ''blobs/X''), (''Y'', BlobLocationInRegistry ''r'')]"
proof -
  have run: "add_blobs_to_zip example_registry example_blobs example_already [] =
     (Inr [(''X'', BlobPathInZip ''blobs/X''), (''Y'', BlobLocationInRegistry ''r'')],
      [PullBlob ''a'' ''X'', ZipWrite ''blobs/X'' ''bytes of X''])"
    by (rule ex_run)
  from add_blobs_to_zip_one_placement_per_digest [OF run] run show ?thesis
    by blast
qed

text \<open>
  C2. When the already-transferred list holds a blob with digest \<open>d\<close>, and
  \<open>dest_blob\<close> is the first such blob, \<open>add_blobs_to_zip\<close> issues no pull for \<open>d\<close> and
  writes no entry \<open>blobs/d\<close>, whether the run returns or fails; and when it returns
  and \<open>d\<close> is a digest of the to-transfer list, the placement recorded for \<open>d\<close> is
  \<open>BlobLocationInRegistry\<close> with the repository of \<open>dest_blob\<close>.
\<close>

theorem add_blobs_to_zip_already_transferred:
  assumes "add_blobs_to_zip reg B T tr = (res, tr')"
    and "get_blob_with_same_digest T d = Some dest_blob"
  shows "\<exists>evs. tr' = tr @ evs
       \<and> (\<forall>r. PullBlob r d \<notin> set evs)
       \<and> (\<forall>data. ZipWrite (''blobs/'' @ d) data \<notin> set evs)
       \<and> (\<forall>m. res = Inr m \<and> d \<in> digest ` set B \<longrightarrow>
             map_of m d = Some (BlobLocationInRegistry (repository dest_blob)))"
proof -
  from assms(1) have loop: "add_blobs_loop reg T [] B tr = (res, tr')"
    by (simp add: add_blobs_to_zip_def)
  from add_blobs_loop_trace_any [OF loop] obtain evs where
    tr': "tr' = tr @ evs" and
    evs: "\<forall>ev \<in> set evs. \<exists>b \<in> set B. get_blob_with_same_digest T (digest b) = None \<and>
            (ev = PullBlob (repository b) (digest b)
             \<or> (\<exists>data. ev = ZipWrite (''blobs/'' @ digest b) data))"
    by blast
  have no_pull: "PullBlob r d \<notin> set evs" for r
    using evs assms(2) by fastforce
  have no_write: "ZipWrite (''blobs/'' @ d) data \<notin> set evs" for data
    using evs assms(2) by fastforce
  have "map_of m d = Some (BlobLocationInRegistry (repository dest_blob))"
    if res: "res = Inr m" and d: "d \<in> digest ` set B" for m
  proof -
    from loop res have "add_blobs_loop reg T [] B tr = (Inr m, tr')" by simp
    from add_blobs_loop_result [OF this]
    have m: "map_of m d = map_option (\<lambda>b. case get_blob_with_same_digest T (digest b) of
                      Some dest_blob \<Rightarrow> BlobLocationInRegistry (repository dest_blob)
                    | None \<Rightarrow> BlobPathInZip (''blobs/'' @ digest b))
               (find (\<lambda>b. digest b = d) B)"
      by (simp add: map_of_digest_keyed new_blobs_find)
    from d obtain b where b: "find (\<lambda>b. digest b = d) B = Some b"
      by (cases "find (\<lambda>b. digest b = d) B") (auto simp: find_None_iff)
    from find_Some_digest [OF b] have "digest b = d" by simp
    with m b assms(2) show ?thesis by simp
  qed
  with tr' no_pull no_write show ?thesis by blast
qed

theorem add_blobs_to_zip_already_transferred_witness:
  "add_blobs_to_zip example_registry example_blobs example_already [] =
     (Inr [(''X'', BlobPathInZip ''blobs/X''), (''Y'', BlobLocationInRegistry ''r'')],
      [PullBlob ''a'' ''X'', ZipWrite ''blobs/X'' ''bytes of X''])
   \<and> get_blob_with_same_digest example_already ''Y'' = Some \<lparr>digest = ''Y'', repository = ''r''\<rparr>
   \<and> ''Y'' \<in> digest ` set example_blobs
   \<and> (\<forall>r. PullBlob r ''Y'' \<notin> set [PullBlob ''a'' ''X'', ZipWrite ''blobs/X'' ''bytes of X''])
   \<and> map_of [(''X'', BlobPathInZip ''blobs/X''), (''Y'', BlobLocationInRegistry ''r'')] ''Y''
       = Some (BlobLocationInRegistry ''r'')"
proof -
  have run: "add_blobs_to_zip example_registry example_blobs example_already [] =
     (Inr [(''X'', BlobPathInZip ''blobs/X''), (''Y'', BlobLocationInRegistry ''r'')],
      [PullBlob ''a'' ''X'', ZipWrite ''blobs/X'' ''bytes of X''])"
    by (rule ex_run)
  have g: "get_blob_with_same_digest example_already ''Y'' = Some \<lparr>digest = ''Y'', repository = ''r''\<rparr>"
    by (simp add: example_already_def)
  have d: "''Y'' \<in> digest ` set example_blobs"
    by (simp add: example_blobs_def)
  from add_blobs_to_zip_already_transferred [OF run g] run g d show ?thesis
    by simp
qed

text \<open>
  C5. Let \<open>b\<close> be the first blob of the to-transfer list with digest \<open>d\<close>, and let no
  already-transferred blob have digest \<open>d\<close>. In a run of \<open>add_blobs_to_zip\<close> that
  returns, the run issues exactly one pull for \<open>d\<close>, from the repository of \<open>b\<close>,
  writes exactly one archive entry at \<open>blobs/d\<close>, holding the chunks of that pull,
  and records the placement \<open>BlobPathInZip\<close> of \<open>blobs/d\<close> for \<open>d\<close>.
\<close>

theorem add_blobs_to_zip_bundles_new_blob:
  assumes "add_blobs_to_zip reg B T tr = (Inr m, tr')"
    and "find (\<lambda>x. digest x = d) B = Some b"
    and "get_blob_with_same_digest T d = None"
  shows "\<exists>evs chunks. tr' = tr @ evs
       \<and> pull_blob reg (repository b) d = PullStream chunks None
       \<and> filter (\<lambda>ev. \<exists>r. ev = PullBlob r d) evs = [PullBlob (repository b) d]
       \<and> filter (\<lambda>ev. \<exists>data. ev = ZipWrite (''blobs/'' @ d) data) evs
           = [ZipWrite (''blobs/'' @ d) (concat chunks)]
       \<and> map_of m d = Some (BlobPathInZip (''blobs/'' @ d))"
proof -
  let ?new = "filter (\<lambda>b. get_blob_with_same_digest T (digest b) = None) (new_blobs {} B)"
  let ?f = "\<lambda>b. snd (download_blob_to_zip reg b [])"
  let ?evs = "concat (map ?f ?new)"
  from assms(1) have loop: "add_blobs_loop reg T [] B tr = (Inr m, tr')"
    by (simp add: add_blobs_to_zip_def)
  from find_Some_digest [OF assms(2)] have db: "digest b = d" by simp
  have "find (\<lambda>x. digest x = d) (new_blobs {} B) = Some b"
    using assms(2) by (simp add: new_blobs_find)
  from find_Some_digest [OF this] have "b \<in> set (new_blobs {} B)" by simp
  with assms(3) db have b_new: "b \<in> set ?new" by simp
  have dist: "distinct (map digest ?new)"
    by (rule distinct_map_filter) (rule new_blobs_distinct)
  have ok: "\<exists>chunks. pull_blob reg (repository x) (digest x) = PullStream chunks None"
    if "x \<in> set ?new" for x
    using add_blobs_loop_pulls_ok [OF loop, of x] that by simp
  from ok [OF b_new] db obtain chunks where
    chunks: "pull_blob reg (repository b) d = PullStream chunks None" by auto
  have fx: "\<exists>c. ?f x = [PullBlob (repository x) (digest x), ZipWrite (''blobs/'' @ digest x) c]"
    if "x \<in> set ?new" for x
    using ok [OF that] by (auto simp: download_blob_to_zip_def Let_def)
  have fb: "?f b = [PullBlob (repository b) d, ZipWrite (''blobs/'' @ d) (concat chunks)]"
    using chunks db by (simp add: download_blob_to_zip_def Let_def)
  have tr': "tr' = tr @ ?evs"
    using add_blobs_loop_trace_ok [OF loop] by simp
  have pulls: "filter (\<lambda>ev. \<exists>r. ev = PullBlob r d) ?evs = [PullBlob (repository b) d]"
  proof -
    have "filter (\<lambda>ev. \<exists>r. ev = PullBlob r d) ?evs = filter (\<lambda>ev. \<exists>r. ev = PullBlob r d) (?f b)"
    proof (rule filter_concat_one [OF dist b_new])
      fix x assume "x \<in> set ?new" and "digest x \<noteq> digest b"
      with fx [of x] db show "filter (\<lambda>ev. \<exists>r. ev = PullBlob r d) (?f x) = []"
        by auto
    qed
    then show ?thesis by (simp add: fb)
  qed
  have writes: "filter (\<lambda>ev. \<exists>data. ev = ZipWrite (''blobs/'' @ d) data) ?evs
                  = [ZipWrite (''blobs/'' @ d) (concat chunks)]"
  proof -
    have "filter (\<lambda>ev. \<exists>data. ev = ZipWrite (''blobs/'' @ d) data) ?evs
            = filter (\<lambda>ev. \<exists>data. ev = ZipWrite (''blobs/'' @ d) data) (?f b)"
    proof (rule filter_concat_one [OF dist b_new])
      fix x assume "x \<in> set ?new" and "digest x \<noteq> digest b"
      with fx [of x] db
      show "filter (\<lambda>ev. \<exists>data. ev = ZipWrite (''blobs/'' @ d) data) (?f x) = []"
        by auto
    qed
    then show ?thesis by (simp add: fb)
  qed
  have "map_of m d = Some (BlobPathInZip (''blobs/'' @ d))"
    using add_blobs_loop_result [OF loop] assms(2,3) db
    by (simp add: map_of_digest_keyed new_blobs_find)
  with tr' chunks pulls writes show ?thesis by blast
qed

theorem add_blobs_to_zip_bundles_new_blob_witness:
  "add_blobs_to_zip example_registry example_blobs example_already [] =
     (Inr [(''X'', BlobPathInZip ''blobs/X''), (''Y'', BlobLocationInRegistry ''r'')],
      [PullBlob ''a'' ''X'', ZipWrite ''blobs/X'' ''bytes of X''])
   \<and> find (\<lambda>x. digest x = ''X'') example_blobs = Some \<lparr>digest = ''X'', repository = ''a''\<rparr>
   \<and> get_blob_with_same_digest example_already ''X'' = None
   \<and> filter (\<lambda>ev. \<exists>r. ev = PullBlob r ''X'') [PullBlob ''a'' ''X'', ZipWrite ''blobs/X'' ''bytes of X'']
       = [PullBlob ''a'' ''X'']
   \<and> map_of [(''X'', BlobPathInZip ''blobs/X''), (''Y'', BlobLocationInRegistry ''r'')] ''X''
       = Some (BlobPathInZip ''blobs/X'')"
proof -
  have run: "add_blobs_to_zip example_registry example_blobs example_already [] =
     (Inr [(''X'', BlobPathInZip ''blobs/X''), (''Y'', BlobLocationInRegistry ''r'')],
      [PullBlob ''a'' ''X'', ZipWrite ''blobs/X'' ''bytes of X''])"
    by (rule ex_run)
  have f: "find (\<lambda>x. digest x = ''X'') example_blobs = Some \<lparr>digest = ''X'', repository = ''a''\<rparr>"
    by (simp add: example_blobs_def)
  have g: "get_blob_with_same_digest example_already ''X'' = None"
    by (simp add: example_already_def)
  from add_blobs_to_zip_bundles_new_blob [OF run f g] run f g show ?thesis
    by auto
qed

text \<open>
  C9. \<open>add_blobs_to_zip\<close> on two blob lists gives the same result (the same mapping
  or the same error) and the same pulls and archive writes in the same order as on
  the two lists deduplicated by \<open>uniquify_blobs\<close> first.
\<close>

theorem add_blobs_to_zip_uniquify_blobs:
  "add_blobs_to_zip reg B T tr = add_blobs_to_zip reg (uniquify_blobs B) (uniquify_blobs T) tr"
proof -
  have "add_blobs_loop reg T [] B tr = add_blobs_loop reg T [] (uniquify_blobs B) tr"
    using add_blobs_loop_new_blobs [of reg T "[]" B tr]
    by (simp add: uniquify_blobs_new_blobs)
  also have "\<dots> = add_blobs_loop reg (uniquify_blobs T) [] (uniquify_blobs B) tr"
    by (rule add_blobs_loop_cong) (simp add: get_blob_with_same_digest_uniquify)
  finally show ?thesis by (simp add: add_blobs_to_zip_def)
qed



section \<open>Partition of the images\<close>

lemma separate_loop_filter:
  "separate_loop a w s t = (w @ filter (\<lambda>i. i \<notin> set a) t, s @ filter (\<lambda>i. i \<in> set a) t)"
  by (induction t arbitrary: w s) auto

lemma separate_filter:
  "separate_images_to_transfer_and_images_to_skip t a =
     (filter (\<lambda>i. i \<notin> set a) t, filter (\<lambda>i. i \<in> set a) t)"
  by (simp add: separate_images_to_transfer_and_images_to_skip_def separate_loop_filter)

lemma images_not_transferred_yet:
  "get_images_not_transferred_yet (from_images cm t a) =
     fst (separate_images_to_transfer_and_images_to_skip t a)"
proof -
  have "filter (\<lambda>i. i \<notin> set (filter (\<lambda>i. i \<in> set a) t)) t = filter (\<lambda>i. i \<notin> set a) t"
    by (rule filter_cong) auto
  then show ?thesis
    by (simp add: get_images_not_transferred_yet_def from_images_def separate_filter)
qed

lemma map_of_fold_update:
  "map_of (fold (\<lambda>img. AList.update img (f img)) xs al) i =
     (if i \<in> set xs then Some (f i) else map_of al i)"
  by (induction xs arbitrary: al) (auto simp: update_conv')

lemma from_images_manifests_paths:
  "map_of (manifests_paths (from_images cm t a)) i =
     (if i \<in> set (fst (separate_images_to_transfer_and_images_to_skip t a))
      then Some (manifest_path cm i) else None)"
  by (simp add: from_images_def separate_filter map_of_fold_update)

lemma from_images_skipped:
  "skipped_images (from_images cm t a) = snd (separate_images_to_transfer_and_images_to_skip t a)"
  by (simp add: from_images_def separate_filter)

section \<open>Manifest resolution\<close>

lemma get_manifests_loop_fails:
  "\<forall>i \<in> set pre. \<not> isl (resolve reg i) \<Longrightarrow> resolve reg img = Inl e \<Longrightarrow>
   get_manifests_loop reg ms bs (pre @ img # post) tr = (Inl e, tr @ map Resolve (pre @ [img]))"
proof (induction pre arbitrary: ms bs tr)
  case Nil
  then show ?case by (simp add: get_manifest_and_list_of_blobs_to_pull_def)
next
  case (Cons x pre)
  from Cons.prems(1) obtain c bl where x: "resolve reg x = Inr (c, bl)"
    by (cases "resolve reg x") auto
  have "get_manifests_loop reg (ms @ [\<lparr>docker_image_name = x, content = c\<rparr>]) (bs @ bl)
          (pre @ img # post) (tr @ [Resolve x])
        = (Inl e, (tr @ [Resolve x]) @ map Resolve (pre @ [img]))"
    using Cons.prems by (intro Cons.IH) auto
  with x show ?case
    by (simp add: get_manifest_and_list_of_blobs_to_pull_def)
qed

lemma get_manifests_loop_trace:
  "get_manifests_loop reg ms bs imgs tr = (r, tr') \<Longrightarrow>
   \<exists>k. tr' = tr @ map Resolve (take k imgs)"
proof (induction imgs arbitrary: ms bs tr)
  case Nil
  then show ?case by simp
next
  case (Cons x imgs)
  show ?case
  proof (cases "resolve reg x")
    case (Inl e)
    with Cons.prems have "tr' = tr @ map Resolve (take 1 (x # imgs))"
      by (simp add: get_manifest_and_list_of_blobs_to_pull_def)
    then show ?thesis by blast
  next
    case (Inr p)
    obtain c bl where p: "p = (c, bl)" by (cases p)
    from Cons.prems Inr p
    have "get_manifests_loop reg (ms @ [\<lparr>docker_image_name = x, content = c\<rparr>]) (bs @ bl) imgs
            (tr @ [Resolve x]) = (r, tr')"
      by (simp add: get_manifest_and_list_of_blobs_to_pull_def)
    from Cons.IH [OF this] obtain k where "tr' = (tr @ [Resolve x]) @ map Resolve (take k imgs)"
      by blast
    then have "tr' = tr @ map Resolve (take (Suc k) (x # imgs))" by simp
    then show ?thesis by blast
  qed
qed

lemma get_manifests_loop_ok:
  "get_manifests_loop reg ms bs imgs tr = (Inr (ms', bs'), tr') \<Longrightarrow>
   tr' = tr @ map Resolve imgs
   \<and> ms' = ms @ map (\<lambda>i. \<lparr>docker_image_name = i, content = fst (projr (resolve reg i))\<rparr>) imgs
   \<and> bs' = bs @ concat (map (\<lambda>i. snd (projr (resolve reg i))) imgs)"
proof (induction imgs arbitrary: ms bs tr)
  case Nil
  then show ?case by simp
next
  case (Cons x imgs)
  show ?case
  proof (cases "resolve reg x")
    case (Inl e)
    with Cons.prems show ?thesis
      by (simp add: get_manifest_and_list_of_blobs_to_pull_def)
  next
    case (Inr p)
    obtain c bl where p: "p = (c, bl)" by (cases p)
    from Cons.prems Inr p
    have "get_manifests_loop reg (ms @ [\<lparr>docker_image_name = x, content = c\<rparr>]) (bs @ bl) imgs
            (tr @ [Resolve x]) = (Inr (ms', bs'), tr')"
      by (simp add: get_manifest_and_list_of_blobs_to_pull_def)
    from Cons.IH [OF this] Inr p show ?thesis by simp
  qed
qed

section \<open>Writing the manifests\<close>

lemma writestr_trace:
  "writestr dest c tr = (r, tr') \<Longrightarrow> \<exists>data. tr' = tr @ [ZipWrite dest data]"
  by (cases c) auto

lemma write_manifests_trace:
  "write_manifests pd ms tr = (r, tr') \<Longrightarrow>
   \<exists>evs. tr' = tr @ evs \<and> (\<forall>ev \<in> set evs. \<exists>p data. ev = ZipWrite p data)"
proof (induction ms arbitrary: tr)
  case Nil
  then show ?case by simp
next
  case (Cons m ms)
  show ?case
  proof (cases "map_of (manifests_paths pd) (docker_image_name m)")
    case None
    with Cons.prems show ?thesis by simp
  next
    case (Some dest)
    show ?thesis
    proof (cases "single_manifest_of (content m)")
      case (Inl e)
      with Some Cons.prems show ?thesis by simp
    next
      case (Inr body)
      obtain r1 tr1 where w: "writestr dest body tr = (r1, tr1)"
        by (cases "writestr dest body tr")
      from writestr_trace [OF w] obtain data where tr1: "tr1 = tr @ [ZipWrite dest data]"
        by blast
      show ?thesis
      proof (cases r1)
        case (Inl e)
        with Some Inr w Cons.prems have "tr' = tr1" by simp
        with tr1 show ?thesis by simp
      next
        case r1: (Inr u)
        with Some Inr w Cons.prems have "write_manifests pd ms tr1 = (r, tr')" by simp
        from Cons.IH [OF this] obtain evs where
          "tr' = tr1 @ evs" and evs: "\<forall>ev \<in> set evs. \<exists>p data. ev = ZipWrite p data"
          by blast
        with tr1 have "tr' = tr @ (ZipWrite dest data # evs)" by simp
        moreover from evs have "\<forall>ev \<in> set (ZipWrite dest data # evs). \<exists>p data. ev = ZipWrite p data"
          by simp
        ultimately show ?thesis by blast
      qed
    qed
  qed
qed

lemma write_manifests_ok:
  "write_manifests pd ms tr = (Inr u, tr') \<Longrightarrow>
   \<forall>mf \<in> set ms. map_of (manifests_paths pd) (docker_image_name mf) = Some (f (docker_image_name mf)) \<Longrightarrow>
   \<exists>bodies. length bodies = length ms \<and>
     tr' = tr @ map (\<lambda>(i, body). ZipWrite (f i) body) (zip (map docker_image_name ms) bodies)"
proof (induction ms arbitrary: tr)
  case Nil
  then show ?case by simp
next
  case (Cons mf ms)
  from Cons.prems(2) have dest: "map_of (manifests_paths pd) (docker_image_name mf)
      = Some (f (docker_image_name mf))" by simp
  from Cons.prems(1) dest obtain body where
    body: "single_manifest_of (content mf) = Inr body"
    by (cases "single_manifest_of (content mf)") auto
  from Cons.prems(1) dest body obtain s where s: "body = SingleManifest s"
    by (cases body) auto
  from Cons.prems(1) dest body s
  have rec: "write_manifests pd ms (tr @ [ZipWrite (f (docker_image_name mf)) s]) = (Inr u, tr')"
    by simp
  from Cons.prems(2) have "\<forall>mf \<in> set ms. map_of (manifests_paths pd) (docker_image_name mf)
      = Some (f (docker_image_name mf))" by simp
  from Cons.IH [OF rec this] obtain bodies where
    len: "length bodies = length ms" and
    tr': "tr' = (tr @ [ZipWrite (f (docker_image_name mf)) s])
            @ map (\<lambda>(i, body). ZipWrite (f i) body) (zip (map docker_image_name ms) bodies)"
    by blast
  have "length (s # bodies) = length (mf # ms)" using len by simp
  moreover have "tr' = tr @ map (\<lambda>(i, body). ZipWrite (f i) body)
                         (zip (map docker_image_name (mf # ms)) (s # bodies))"
    using tr' by simp
  ultimately show ?case by blast
qed

lemma single_manifest_of_amd64:
  "idx ''linux/amd64'' = Some v \<Longrightarrow> single_manifest_of (MultiArchIndex idx) = Inr (SingleManifest v)"
  by simp

lemma write_manifests_amd64:
  "map_of (manifests_paths pd) (docker_image_name m) = Some dest \<Longrightarrow>
   content m = MultiArchIndex idx \<Longrightarrow> idx ''linux/amd64'' = Some v \<Longrightarrow>
   write_manifests pd (m # ms) tr = write_manifests pd ms (tr @ [ZipWrite dest v])"
  by simp

lemma write_manifests_single:
  "map_of (manifests_paths pd) (docker_image_name m) = Some dest \<Longrightarrow>
   content m = SingleManifest s \<Longrightarrow>
   write_manifests pd (m # ms) tr =
     (if sublist ''linux/amd64'' s then (Inl TypeError, tr)
      else write_manifests pd ms (tr @ [ZipWrite dest s]))"
  by simp

section \<open>The whole run\<close>

lemma add_blobs_to_zip_trace:
  "add_blobs_to_zip reg B T tr = (r, tr') \<Longrightarrow> \<exists>evs. tr' = tr @ evs"
  using add_blobs_loop_trace_any [of reg T "[]" B tr r tr']
  by (auto simp: add_blobs_to_zip_def)

lemma get_manifests_trace:
  "get_manifests_and_list_of_all_blobs reg imgs tr = (r, tr') \<Longrightarrow>
   \<exists>k. tr' = tr @ map Resolve (take k imgs)"
  unfolding get_manifests_and_list_of_all_blobs_def by (rule get_manifests_loop_trace)

lemma add_blobs_to_zip_keys:
  "add_blobs_to_zip reg B T tr = (Inr m, tr') \<Longrightarrow> fst ` set m = digest ` set B"
proof -
  assume "add_blobs_to_zip reg B T tr = (Inr m, tr')"
  then have "add_blobs_loop reg T [] B tr = (Inr m, tr')"
    by (simp add: add_blobs_to_zip_def)
  from add_blobs_loop_result [OF this]
  have "map fst m = map digest (new_blobs {} B)" by (simp add: comp_def)
  then have "set (map fst m) = set (map digest (new_blobs {} B))" by simp
  then show ?thesis by (simp add: new_blobs_digests)
qed

lemma add_blobs_to_zip_events:
  "add_blobs_to_zip reg B T tr = (r, tr') \<Longrightarrow>
   \<exists>evs. tr' = tr @ evs \<and>
     (\<forall>ev \<in> set evs. \<exists>b \<in> set B. ev = PullBlob (repository b) (digest b)
         \<or> (\<exists>data. ev = ZipWrite (''blobs/'' @ digest b) data))"
proof -
  assume "add_blobs_to_zip reg B T tr = (r, tr')"
  then have "add_blobs_loop reg T [] B tr = (r, tr')"
    by (simp add: add_blobs_to_zip_def)
  from add_blobs_loop_trace_any [OF this] show ?thesis by blast
qed

lemma get_manifests_ok:
  "get_manifests_and_list_of_all_blobs reg imgs tr = (Inr (ms, bs), tr') \<Longrightarrow>
   tr' = tr @ map Resolve imgs
   \<and> map docker_image_name ms = imgs
   \<and> bs = concat (map (\<lambda>i. snd (projr (resolve reg i))) imgs)"
proof -
  assume "get_manifests_and_list_of_all_blobs reg imgs tr = (Inr (ms, bs), tr')"
  then have "get_manifests_loop reg [] [] imgs tr = (Inr (ms, bs), tr')"
    by (simp add: get_manifests_and_list_of_all_blobs_def)
  from get_manifests_loop_ok [OF this] show ?thesis
    by (simp add: comp_def)
qed

lemma create_zip_plan:
  assumes "create_zip_from_docker_images cm reg t a tr = (Inr u, tr')"
  shows "\<exists>ms bl ms' bl' m evs bodies.
      get_manifests_and_list_of_all_blobs reg
          (fst (separate_images_to_transfer_and_images_to_skip t a)) tr
        = (Inr (ms, bl),
           tr @ map Resolve (fst (separate_images_to_transfer_and_images_to_skip t a)))
    \<and> map docker_image_name ms = fst (separate_images_to_transfer_and_images_to_skip t a)
    \<and> bl = concat (map (\<lambda>i. snd (projr (resolve reg i)))
                  (fst (separate_images_to_transfer_and_images_to_skip t a)))
    \<and> get_manifests_and_list_of_all_blobs reg a
          (tr @ map Resolve (fst (separate_images_to_transfer_and_images_to_skip t a)))
        = (Inr (ms', bl'),
           tr @ map Resolve (fst (separate_images_to_transfer_and_images_to_skip t a))
              @ map Resolve a)
    \<and> add_blobs_to_zip reg bl bl'
          (tr @ map Resolve (fst (separate_images_to_transfer_and_images_to_skip t a))
              @ map Resolve a)
        = (Inr m,
           tr @ map Resolve (fst (separate_images_to_transfer_and_images_to_skip t a))
              @ map Resolve a @ evs)
    \<and> fst ` set m = digest ` set bl
    \<and> (\<forall>ev \<in> set evs. \<exists>b \<in> set bl. ev = PullBlob (repository b) (digest b)
           \<or> (\<exists>data. ev = ZipWrite (''blobs/'' @ digest b) data))
    \<and> length bodies = length (fst (separate_images_to_transfer_and_images_to_skip t a))
    \<and> tr' = tr @ map Resolve (fst (separate_images_to_transfer_and_images_to_skip t a))
              @ map Resolve a @ evs
              @ map (\<lambda>(i, body). ZipWrite (manifest_path cm i) body)
                  (zip (fst (separate_images_to_transfer_and_images_to_skip t a)) bodies)
              @ [ZipWrite ''payload_descriptor.json''
                   (payload_descriptor_json cm ((from_images cm t a)\<lparr>blobs_paths := m\<rparr>))]"
proof -
  let ?pd = "from_images cm t a"
  let ?needs = "fst (separate_images_to_transfer_and_images_to_skip t a)"
  have needs: "get_images_not_transferred_yet ?pd = ?needs"
    by (rule images_not_transferred_yet)
  from assms obtain ms bl tr1 where
    r1: "get_manifests_and_list_of_all_blobs reg ?needs tr = (Inr (ms, bl), tr1)"
    by (auto simp: create_zip_from_docker_images_def Let_def needs split: prod.splits sum.splits)
  from assms r1 obtain ms' bl' tr2 where
    r2: "get_manifests_and_list_of_all_blobs reg a tr1 = (Inr (ms', bl'), tr2)"
    by (auto simp: create_zip_from_docker_images_def Let_def needs split: prod.splits sum.splits)
  from assms r1 r2 obtain m tr3 where
    r3: "add_blobs_to_zip reg bl bl' tr2 = (Inr m, tr3)"
    by (auto simp: create_zip_from_docker_images_def Let_def needs split: prod.splits sum.splits)
  from assms r1 r2 r3 obtain u' tr4 where
    r4: "write_manifests (?pd\<lparr>blobs_paths := m\<rparr>) ms tr3 = (Inr u', tr4)"
    by (auto simp: create_zip_from_docker_images_def Let_def needs split: prod.splits sum.splits)
  from assms r1 r2 r3 r4 have
    tr': "tr' = tr4 @ [ZipWrite ''payload_descriptor.json''
                         (payload_descriptor_json cm (?pd\<lparr>blobs_paths := m\<rparr>))]"
    by (simp add: create_zip_from_docker_images_def Let_def needs)
  from get_manifests_ok [OF r1] have
    tr1: "tr1 = tr @ map Resolve ?needs" and names: "map docker_image_name ms = ?needs"
    and bl: "bl = concat (map (\<lambda>i. snd (projr (resolve reg i))) ?needs)"
    by simp_all
  from get_manifests_ok [OF r2] have tr2: "tr2 = tr1 @ map Resolve a" by simp
  from add_blobs_to_zip_events [OF r3] obtain evs where
    tr3: "tr3 = tr2 @ evs" and
    evs: "\<forall>ev \<in> set evs. \<exists>b \<in> set bl. ev = PullBlob (repository b) (digest b)
           \<or> (\<exists>data. ev = ZipWrite (''blobs/'' @ digest b) data)"
    by blast
  have paths: "\<forall>mf \<in> set ms. map_of (manifests_paths (?pd\<lparr>blobs_paths := m\<rparr>)) (docker_image_name mf)
      = Some (manifest_path cm (docker_image_name mf))"
  proof
    fix mf assume "mf \<in> set ms"
    then have "docker_image_name mf \<in> set (map docker_image_name ms)" by simp
    with names have "docker_image_name mf \<in> set ?needs" by simp
    then show "map_of (manifests_paths (?pd\<lparr>blobs_paths := m\<rparr>)) (docker_image_name mf)
      = Some (manifest_path cm (docker_image_name mf))"
      by (simp add: from_images_manifests_paths)
  qed
  from write_manifests_ok [OF r4 paths] names obtain bodies where
    len: "length bodies = length ms" and
    tr4: "tr4 = tr3 @ map (\<lambda>(i, body). ZipWrite (manifest_path cm i) body) (zip ?needs bodies)"
    by auto
  from len names have len': "length bodies = length ?needs"
    by (metis length_map)
  have k: "fst ` set m = digest ` set bl" by (rule add_blobs_to_zip_keys [OF r3])
  have e1: "get_manifests_and_list_of_all_blobs reg ?needs tr
              = (Inr (ms, bl), tr @ map Resolve ?needs)"
    using r1 tr1 by simp
  have e2: "get_manifests_and_list_of_all_blobs reg a (tr @ map Resolve ?needs)
              = (Inr (ms', bl'), tr @ map Resolve ?needs @ map Resolve a)"
    using r2 tr1 tr2 by simp
  have e3: "add_blobs_to_zip reg bl bl' (tr @ map Resolve ?needs @ map Resolve a)
              = (Inr m, tr @ map Resolve ?needs @ map Resolve a @ evs)"
    using r3 tr1 tr2 tr3 by simp
  have e4: "tr' = tr @ map Resolve ?needs @ map Resolve a @ evs
              @ map (\<lambda>(i, body). ZipWrite (manifest_path cm i) body) (zip ?needs bodies)
              @ [ZipWrite ''payload_descriptor.json''
                   (payload_descriptor_json cm (?pd\<lparr>blobs_paths := m\<rparr>))]"
    using tr' tr4 tr3 tr2 tr1 by simp
  from e1 names bl e2 e3 k evs len' e4 show ?thesis by blast
qed

lemma add_blobs_loop_returns:
  "\<forall>b \<in> set B. \<exists>chunks. pull_blob reg (repository b) (digest b) = PullStream chunks None \<Longrightarrow>
   \<exists>m tr'. add_blobs_loop reg T bp B tr = (Inr m, tr')"
proof (induction B arbitrary: bp tr)
  case Nil
  then show ?case by simp
next
  case (Cons b B)
  from Cons.prems obtain chunks where
    "pull_blob reg (repository b) (digest b) = PullStream chunks None" by auto
  then have dl: "download_blob_to_zip reg b tr =
      (Inr (''blobs/'' @ digest b),
       tr @ [PullBlob (repository b) (digest b), ZipWrite (''blobs/'' @ digest b) (concat chunks)])"
    by (simp add: download_blob_to_zip_def Let_def)
  from Cons.prems have rest: "\<forall>b \<in> set B. \<exists>chunks.
      pull_blob reg (repository b) (digest b) = PullStream chunks None" by simp
  show ?case
    using Cons.IH [OF rest] dl by (simp split: option.splits)
qed

lemma add_blobs_to_zip_returns:
  "\<forall>b \<in> set B. \<exists>chunks. pull_blob reg (repository b) (digest b) = PullStream chunks None \<Longrightarrow>
   \<exists>m tr'. add_blobs_to_zip reg B T tr = (Inr m, tr')"
  unfolding add_blobs_to_zip_def by (rule add_blobs_loop_returns)

lemma create_zip_trace_passes:
  "\<exists>k1 k2 evs. snd (create_zip_from_docker_images cm reg t a tr)
        = tr @ map Resolve (take k1 (fst (separate_images_to_transfer_and_images_to_skip t a)))
             @ map Resolve (take k2 a) @ evs
      \<and> (\<forall>ev \<in> set evs. \<forall>i. ev \<noteq> Resolve i)"
proof -
  let ?pd = "from_images cm t a"
  let ?needs = "fst (separate_images_to_transfer_and_images_to_skip t a)"
  let ?run = "create_zip_from_docker_images cm reg t a tr"
  have needs: "get_images_not_transferred_yet ?pd = ?needs"
    by (rule images_not_transferred_yet)
  have shape: "\<exists>k1 k2 evs. snd ?run = tr @ map Resolve (take k1 ?needs) @ map Resolve (take k2 a) @ evs
      \<and> (\<forall>ev \<in> set evs. \<forall>i. ev \<noteq> Resolve i)"
    if "snd ?run = tr @ map Resolve (take k1 ?needs) @ map Resolve (take k2 a) @ evs"
      and "\<forall>ev \<in> set evs. \<forall>i. ev \<noteq> Resolve i" for k1 k2 evs
    using that by blast
  obtain r1 tr1 where r1: "get_manifests_and_list_of_all_blobs reg ?needs tr = (r1, tr1)"
    by (cases "get_manifests_and_list_of_all_blobs reg ?needs tr")
  from get_manifests_trace [OF r1] obtain k1 where
    tr1: "tr1 = tr @ map Resolve (take k1 ?needs)" by blast
  show ?thesis
  proof (cases r1)
    case (Inl e)
    with r1 have "snd ?run = tr1"
      by (simp add: create_zip_from_docker_images_def Let_def needs)
    with tr1 have "snd ?run = tr @ map Resolve (take k1 ?needs) @ map Resolve (take 0 a) @ []"
      by simp
    then show ?thesis by (rule shape) simp
  next
    case (Inr p1)
    obtain ms bl where p1: "p1 = (ms, bl)" by (cases p1)
    obtain r2 tr2 where r2: "get_manifests_and_list_of_all_blobs reg a tr1 = (r2, tr2)"
      by (cases "get_manifests_and_list_of_all_blobs reg a tr1")
    from get_manifests_trace [OF r2] obtain k2 where
      "tr2 = tr1 @ map Resolve (take k2 a)" by blast
    with tr1 have tr2: "tr2 = tr @ map Resolve (take k1 ?needs) @ map Resolve (take k2 a)" by simp
    show ?thesis
    proof (cases r2)
      case (Inl e)
      with r1 Inr p1 r2 have "snd ?run = tr2"
        by (simp add: create_zip_from_docker_images_def Let_def needs)
      with tr2 have "snd ?run = tr @ map Resolve (take k1 ?needs) @ map Resolve (take k2 a) @ []"
        by simp
      then show ?thesis by (rule shape) simp
    next
      case r2_ok: (Inr p2)
      obtain ms' bl' where p2: "p2 = (ms', bl')" by (cases p2)
      obtain r3 tr3 where r3: "add_blobs_to_zip reg bl bl' tr2 = (r3, tr3)"
        by (cases "add_blobs_to_zip reg bl bl' tr2")
      from add_blobs_to_zip_events [OF r3] obtain e3 where
        tr3: "tr3 = tr2 @ e3" and e3: "\<forall>ev \<in> set e3. \<forall>i. ev \<noteq> Resolve i"
        by fastforce
      show ?thesis
      proof (cases r3)
        case (Inl e)
        with r1 Inr p1 r2 r2_ok p2 r3 have "snd ?run = tr3"
          by (simp add: create_zip_from_docker_images_def Let_def needs)
        with tr2 tr3 have "snd ?run = tr @ map Resolve (take k1 ?needs) @ map Resolve (take k2 a) @ e3"
          by simp
        then show ?thesis using e3 by (rule shape)
      next
        case r3_ok: (Inr m)
        obtain r4 tr4 where r4: "write_manifests (?pd\<lparr>blobs_paths := m\<rparr>) ms tr3 = (r4, tr4)"
          by (cases "write_manifests (?pd\<lparr>blobs_paths := m\<rparr>) ms tr3")
        from write_manifests_trace [OF r4] obtain e4 where
          tr4: "tr4 = tr3 @ e4" and e4: "\<forall>ev \<in> set e4. \<forall>i. ev \<noteq> Resolve i"
          by fastforce
        show ?thesis
        proof (cases r4)
          case (Inl e)
          with r1 Inr p1 r2 r2_ok p2 r3 r3_ok r4 have "snd ?run = tr4"
            by (simp add: create_zip_from_docker_images_def Let_def needs)
          with tr2 tr3 tr4
          have "snd ?run = tr @ map Resolve (take k1 ?needs) @ map Resolve (take k2 a) @ (e3 @ e4)"
            by simp
          moreover from e3 e4 have "\<forall>ev \<in> set (e3 @ e4). \<forall>i. ev \<noteq> Resolve i" by auto
          ultimately show ?thesis by (rule shape)
        next
          case r4_ok: (Inr u)
          let ?w = "ZipWrite ''payload_descriptor.json''
                      (payload_descriptor_json cm (?pd\<lparr>blobs_paths := m\<rparr>))"
          from r1 Inr p1 r2 r2_ok p2 r3 r3_ok r4 r4_ok have "snd ?run = tr4 @ [?w]"
            by (simp add: create_zip_from_docker_images_def Let_def needs)
          with tr2 tr3 tr4
          have "snd ?run = tr @ map Resolve (take k1 ?needs) @ map Resolve (take k2 a)
                             @ (e3 @ e4 @ [?w])"
            by simp
          moreover from e3 e4 have "\<forall>ev \<in> set (e3 @ e4 @ [?w]). \<forall>i. ev \<noteq> Resolve i" by auto
          ultimately show ?thesis by (rule shape)
        qed
      qed
    qed
  qed
qed

lemma create_zip_trace_shape:
  "\<exists>rs evs. snd (create_zip_from_docker_images cm reg t a tr) = tr @ map Resolve rs @ evs
      \<and> (\<forall>ev \<in> set evs. \<forall>i. ev \<noteq> Resolve i)"
proof -
  from create_zip_trace_passes [of cm reg t a tr] obtain k1 k2 evs where
    "snd (create_zip_from_docker_images cm reg t a tr)
        = tr @ map Resolve (take k1 (fst (separate_images_to_transfer_and_images_to_skip t a)))
             @ map Resolve (take k2 a) @ evs"
    and evs: "\<forall>ev \<in> set evs. \<forall>i. ev \<noteq> Resolve i"
    by blast
  then have "snd (create_zip_from_docker_images cm reg t a tr)
        = tr @ map Resolve (take k1 (fst (separate_images_to_transfer_and_images_to_skip t a))
                              @ take k2 a) @ evs"
    by simp
  with evs show ?thesis by blast
qed

lemma create_zip_fails_at_first_unresolved:
  assumes "fst (separate_images_to_transfer_and_images_to_skip t a) = pre @ img # post"
    and "\<forall>i \<in> set pre. \<not> isl (resolve reg i)"
    and "resolve reg img = Inl e"
  shows "create_zip_from_docker_images cm reg t a tr = (Inl e, tr @ map Resolve (pre @ [img]))"
proof -
  have "get_manifests_and_list_of_all_blobs reg
          (get_images_not_transferred_yet (from_images cm t a)) tr
        = (Inl e, tr @ map Resolve (pre @ [img]))"
    unfolding get_manifests_and_list_of_all_blobs_def images_not_transferred_yet assms(1)
    by (rule get_manifests_loop_fails [OF assms(2,3)])
  then show ?thesis
    by (simp add: create_zip_from_docker_images_def Let_def)
qed

lemmas example_run_defs =
  create_zip_from_docker_images_def from_images_def
  separate_images_to_transfer_and_images_to_skip_def get_images_not_transferred_yet_def
  get_manifests_and_list_of_all_blobs_def get_manifest_and_list_of_blobs_to_pull_def
  add_blobs_to_zip_def download_blob_to_zip_def payload_descriptor_json_def
  example_registry_def example_common_def Let_def

lemma example_noted_mentions_platform:
  "sublist ''linux/amd64'' ''manifest built for linux/amd64''"
  by code_simp

lemma example_app_has_no_platform:
  "\<not> sublist ''linux/amd64'' ''manifest of app''"
  by code_simp

lemma ex_create_zip_skip:
  "create_zip_from_docker_images example_common example_registry
      [''app:1.0'', ''multi:1.0''] [''app:1.0''] []
   = (Inr (),
      [Resolve ''multi:1.0'', Resolve ''app:1.0'',
       PullBlob ''multi'' ''sha256:def'',
       ZipWrite ''blobs/sha256:def'' ''bytes of sha256:def'',
       ZipWrite ''manifests/multi:1.0'' ''M1'',
       ZipWrite ''payload_descriptor.json'' ''descriptor''])"
  by (simp add: example_run_defs)

text \<open>
  C3. The claim has two halves. The first holds: for a multi-architecture index with
  a \<open>linux/amd64\<close> variant the body written is that variant
  (\<open>write_manifests_amd64\<close>). The second fails on a single manifest body whose text
  contains \<open>linux/amd64\<close>: the test of line 145 is then a substring test and
  succeeds, line 146 indexes the string and raises \<open>TypeError\<close>. For the image
  \<open>noted:1.0\<close> of the example registry the blob is bundled, and then the run fails:
  neither the manifest nor the payload descriptor is written. A single body without
  that text is written unchanged (\<open>write_manifests_single\<close>).
\<close>

theorem create_zip_single_manifest_mentioning_platform:
  "resolve example_registry ''noted:1.0'' =
     Inr (SingleManifest ''manifest built for linux/amd64'',
          [\<lparr>digest = ''sha256:abc'', repository = ''noted''\<rparr>])
   \<and> create_zip_from_docker_images example_common example_registry [''noted:1.0''] [] []
     = (Inl TypeError,
        [Resolve ''noted:1.0'',
         PullBlob ''noted'' ''sha256:abc'',
         ZipWrite ''blobs/sha256:abc'' ''bytes of sha256:abc''])"
  by (simp add: example_run_defs example_noted_mentions_platform)

text \<open>
  C6. In every run of \<open>create_zip_from_docker_images\<close> that returns, the last event
  is the write of the serialised payload descriptor, holding the mapping that
  \<open>add_blobs_to_zip\<close> returned, at the path \<open>payload_descriptor.json\<close>. Every other
  event of the run, so every blob write and every manifest write, comes before it.
\<close>

theorem create_zip_descriptor_written_last:
  assumes "create_zip_from_docker_images cm reg t a tr = (Inr u, tr')"
  shows "\<exists>evs blobs_to_pull blobs_already_transferred tr2 tr3 m.
           add_blobs_to_zip reg blobs_to_pull blobs_already_transferred tr2 = (Inr m, tr3)
         \<and> tr' = tr @ evs @ [ZipWrite ''payload_descriptor.json''
                               (payload_descriptor_json cm ((from_images cm t a)\<lparr>blobs_paths := m\<rparr>))]"
proof -
  let ?pd = "from_images cm t a"
  from assms obtain ms bl tr1 where
    r1: "get_manifests_and_list_of_all_blobs reg (get_images_not_transferred_yet ?pd) tr
           = (Inr (ms, bl), tr1)"
    by (auto simp: create_zip_from_docker_images_def Let_def split: prod.splits sum.splits)
  from assms r1 obtain ms' bl' tr2 where
    r2: "get_manifests_and_list_of_all_blobs reg a tr1 = (Inr (ms', bl'), tr2)"
    by (auto simp: create_zip_from_docker_images_def Let_def split: prod.splits sum.splits)
  from assms r1 r2 obtain m tr3 where
    r3: "add_blobs_to_zip reg bl bl' tr2 = (Inr m, tr3)"
    by (auto simp: create_zip_from_docker_images_def Let_def split: prod.splits sum.splits)
  from assms r1 r2 r3 obtain u' tr4 where
    r4: "write_manifests (?pd\<lparr>blobs_paths := m\<rparr>) ms tr3 = (Inr u', tr4)"
    by (auto simp: create_zip_from_docker_images_def Let_def split: prod.splits sum.splits)
  from assms r1 r2 r3 r4 have
    tr': "tr' = tr4 @ [ZipWrite ''payload_descriptor.json''
                         (payload_descriptor_json cm (?pd\<lparr>blobs_paths := m\<rparr>))]"
    by (simp add: create_zip_from_docker_images_def Let_def)
  from get_manifests_trace [OF r1] obtain e1 where "tr1 = tr @ e1" by blast
  moreover from get_manifests_trace [OF r2] obtain e2 where "tr2 = tr1 @ e2" by blast
  moreover from add_blobs_to_zip_trace [OF r3] obtain e3 where "tr3 = tr2 @ e3" by blast
  moreover from write_manifests_trace [OF r4] obtain e4 where "tr4 = tr3 @ e4" by blast
  ultimately have "tr4 = tr @ (e1 @ e2 @ e3 @ e4)" by simp
  with tr' have "tr' = tr @ (e1 @ e2 @ e3 @ e4) @ [ZipWrite ''payload_descriptor.json''
                         (payload_descriptor_json cm (?pd\<lparr>blobs_paths := m\<rparr>))]"
    by simp
  with r3 show ?thesis by blast
qed

theorem create_zip_descriptor_written_last_witness:
  "create_zip_from_docker_images example_common example_registry [''app:1.0''] [] []
     = (Inr (),
        [Resolve ''app:1.0'',
         PullBlob ''app'' ''sha256:abc'',
         ZipWrite ''blobs/sha256:abc'' ''bytes of sha256:abc'',
         ZipWrite ''manifests/app:1.0'' ''manifest of app'',
         ZipWrite ''payload_descriptor.json'' ''descriptor''])
   \<and> (\<exists>evs. [Resolve ''app:1.0'',
         PullBlob ''app'' ''sha256:abc'',
         ZipWrite ''blobs/sha256:abc'' ''bytes of sha256:abc'',
         ZipWrite ''manifests/app:1.0'' ''manifest of app'',
         ZipWrite ''payload_descriptor.json'' ''descriptor'']
       = [] @ evs @ [ZipWrite ''payload_descriptor.json'' ''descriptor''])"
proof -
  have run: "create_zip_from_docker_images example_common example_registry [''app:1.0''] [] []
     = (Inr (),
        [Resolve ''app:1.0'',
         PullBlob ''app'' ''sha256:abc'',
         ZipWrite ''blobs/sha256:abc'' ''bytes of sha256:abc'',
         ZipWrite ''manifests/app:1.0'' ''manifest of app'',
         ZipWrite ''payload_descriptor.json'' ''descriptor''])"
    by (simp add: example_run_defs example_app_has_no_platform)
  have json: "payload_descriptor_json example_common pd = ''descriptor''" for pd
    by (simp add: payload_descriptor_json_def example_common_def)
  from create_zip_descriptor_written_last [OF run] run show ?thesis
    unfolding json by blast
qed

text \<open>
  C7, as amended. \<open>separate_images_to_transfer_and_images_to_skip\<close> splits the images
  to transfer by membership in the already-transferred list, keeping the input order,
  and every image goes to exactly one of the two lists. A skipped image is in the
  already-transferred list and not in the needs-work list; the descriptor records it
  in the skip list and holds no manifest path for it. In every run of
  \<open>create_zip_from_docker_images\<close> the resolutions are those of a prefix of the
  needs-work list followed by those of a prefix of the already-transferred list, and
  they come first. In every run that returns, the first pass resolves exactly the
  needs-work images and keeps their manifests and their blobs only, the placement
  mapping has exactly the digests of those blobs as keys, every blob pull and blob
  write is for one of those blobs, and the manifest entries written are one per
  needs-work image, at its manifest path. So the skipped image contributes no
  manifest and no blob entry to the plan; it is resolved as a member of the
  already-transferred list only.
\<close>

theorem separate_images_partition:
  assumes "separate_images_to_transfer_and_images_to_skip t a = (needs, skip)"
  shows "needs = filter (\<lambda>i. i \<notin> set a) t
       \<and> skip = filter (\<lambda>i. i \<in> set a) t
       \<and> length needs + length skip = length t
       \<and> (img \<in> set skip \<longrightarrow>
            img \<in> set a
          \<and> img \<notin> set needs
          \<and> skipped_images (from_images cm t a) = skip
          \<and> map_of (manifests_paths (from_images cm t a)) img = None
          \<and> (\<exists>k1 k2 evs.
                snd (create_zip_from_docker_images cm reg t a tr)
                  = tr @ map Resolve (take k1 needs) @ map Resolve (take k2 a) @ evs
              \<and> (\<forall>ev \<in> set evs. \<forall>i. ev \<noteq> Resolve i))
          \<and> (create_zip_from_docker_images cm reg t a tr = (Inr u, tr') \<longrightarrow>
               (\<exists>ms bl ms' bl' m evs bodies.
                   get_manifests_and_list_of_all_blobs reg needs tr
                     = (Inr (ms, bl), tr @ map Resolve needs)
                 \<and> map docker_image_name ms = needs
                 \<and> img \<notin> docker_image_name ` set ms
                 \<and> bl = concat (map (\<lambda>i. snd (projr (resolve reg i))) needs)
                 \<and> get_manifests_and_list_of_all_blobs reg a (tr @ map Resolve needs)
                     = (Inr (ms', bl'), tr @ map Resolve needs @ map Resolve a)
                 \<and> add_blobs_to_zip reg bl bl' (tr @ map Resolve needs @ map Resolve a)
                     = (Inr m, tr @ map Resolve needs @ map Resolve a @ evs)
                 \<and> fst ` set m = digest ` set bl
                 \<and> (\<forall>ev \<in> set evs. \<exists>b \<in> set bl. ev = PullBlob (repository b) (digest b)
                        \<or> (\<exists>data. ev = ZipWrite (''blobs/'' @ digest b) data))
                 \<and> length bodies = length needs
                 \<and> tr' = tr @ map Resolve needs @ map Resolve a @ evs
                        @ map (\<lambda>(i, body). ZipWrite (manifest_path cm i) body) (zip needs bodies)
                        @ [ZipWrite ''payload_descriptor.json''
                             (payload_descriptor_json cm
                                ((from_images cm t a)\<lparr>blobs_paths := m\<rparr>))])))"
proof -
  from assms have needs: "needs = filter (\<lambda>i. i \<notin> set a) t"
    and skip: "skip = filter (\<lambda>i. i \<in> set a) t"
    by (simp_all add: separate_filter)
  from assms have fst_sep: "fst (separate_images_to_transfer_and_images_to_skip t a) = needs"
    and snd_sep: "snd (separate_images_to_transfer_and_images_to_skip t a) = skip"
    by simp_all
  have len: "length needs + length skip = length t"
    unfolding needs skip using sum_length_filter_compl [of "\<lambda>i. i \<in> set a" t] by simp
  have passes: "\<exists>k1 k2 evs.
                snd (create_zip_from_docker_images cm reg t a tr)
                  = tr @ map Resolve (take k1 needs) @ map Resolve (take k2 a) @ evs
              \<and> (\<forall>ev \<in> set evs. \<forall>i. ev \<noteq> Resolve i)"
    using create_zip_trace_passes [of cm reg t a tr] by (simp only: fst_sep)
  have skipped: "img \<in> set a \<and> img \<notin> set needs
          \<and> skipped_images (from_images cm t a) = skip
          \<and> map_of (manifests_paths (from_images cm t a)) img = None"
    if "img \<in> set skip"
  proof -
    from that have a: "img \<in> set a" by (simp add: skip)
    then have n: "img \<notin> set needs" by (simp add: needs)
    from n show ?thesis
      using a by (simp add: from_images_skipped snd_sep from_images_manifests_paths fst_sep)
  qed
  have plan: "\<exists>ms bl ms' bl' m evs bodies.
                   get_manifests_and_list_of_all_blobs reg needs tr
                     = (Inr (ms, bl), tr @ map Resolve needs)
                 \<and> map docker_image_name ms = needs
                 \<and> img \<notin> docker_image_name ` set ms
                 \<and> bl = concat (map (\<lambda>i. snd (projr (resolve reg i))) needs)
                 \<and> get_manifests_and_list_of_all_blobs reg a (tr @ map Resolve needs)
                     = (Inr (ms', bl'), tr @ map Resolve needs @ map Resolve a)
                 \<and> add_blobs_to_zip reg bl bl' (tr @ map Resolve needs @ map Resolve a)
                     = (Inr m, tr @ map Resolve needs @ map Resolve a @ evs)
                 \<and> fst ` set m = digest ` set bl
                 \<and> (\<forall>ev \<in> set evs. \<exists>b \<in> set bl. ev = PullBlob (repository b) (digest b)
                        \<or> (\<exists>data. ev = ZipWrite (''blobs/'' @ digest b) data))
                 \<and> length bodies = length needs
                 \<and> tr' = tr @ map Resolve needs @ map Resolve a @ evs
                        @ map (\<lambda>(i, body). ZipWrite (manifest_path cm i) body) (zip needs bodies)
                        @ [ZipWrite ''payload_descriptor.json''
                             (payload_descriptor_json cm
                                ((from_images cm t a)\<lparr>blobs_paths := m\<rparr>))]"
    if "img \<in> set skip" and run: "create_zip_from_docker_images cm reg t a tr = (Inr u, tr')"
  proof -
    from skipped [OF that(1)] have n: "img \<notin> set needs" by simp
    from create_zip_plan [OF run] obtain ms bl ms' bl' m evs bodies where
      p: "get_manifests_and_list_of_all_blobs reg needs tr
                     = (Inr (ms, bl), tr @ map Resolve needs)"
         "map docker_image_name ms = needs"
         "bl = concat (map (\<lambda>i. snd (projr (resolve reg i))) needs)"
         "get_manifests_and_list_of_all_blobs reg a (tr @ map Resolve needs)
                     = (Inr (ms', bl'), tr @ map Resolve needs @ map Resolve a)"
         "add_blobs_to_zip reg bl bl' (tr @ map Resolve needs @ map Resolve a)
                     = (Inr m, tr @ map Resolve needs @ map Resolve a @ evs)"
         "fst ` set m = digest ` set bl"
         "\<forall>ev \<in> set evs. \<exists>b \<in> set bl. ev = PullBlob (repository b) (digest b)
                        \<or> (\<exists>data. ev = ZipWrite (''blobs/'' @ digest b) data)"
         "length bodies = length needs"
         "tr' = tr @ map Resolve needs @ map Resolve a @ evs
                        @ map (\<lambda>(i, body). ZipWrite (manifest_path cm i) body) (zip needs bodies)
                        @ [ZipWrite ''payload_descriptor.json''
                             (payload_descriptor_json cm
                                ((from_images cm t a)\<lparr>blobs_paths := m\<rparr>))]"
      unfolding fst_sep by blast
    have "docker_image_name ` set ms = set (map docker_image_name ms)" by simp
    with p(2) n have "img \<notin> docker_image_name ` set ms" by simp
    with p show ?thesis by blast
  qed
  from needs skip len skipped passes plan show ?thesis by blast
qed

theorem separate_images_partition_witness:
  "separate_images_to_transfer_and_images_to_skip [''app:1.0'', ''multi:1.0''] [''app:1.0'']
     = ([''multi:1.0''], [''app:1.0''])
   \<and> ''app:1.0'' \<in> set [''app:1.0'']
   \<and> create_zip_from_docker_images example_common example_registry
        [''app:1.0'', ''multi:1.0''] [''app:1.0''] []
     = (Inr (),
        [Resolve ''multi:1.0'', Resolve ''app:1.0'',
         PullBlob ''multi'' ''sha256:def'',
         ZipWrite ''blobs/sha256:def'' ''bytes of sha256:def'',
         ZipWrite ''manifests/multi:1.0'' ''M1'',
         ZipWrite ''payload_descriptor.json'' ''descriptor''])
   \<and> skipped_images (from_images example_common [''app:1.0'', ''multi:1.0''] [''app:1.0''])
       = [''app:1.0'']
   \<and> map_of (manifests_paths (from_images example_common [''app:1.0'', ''multi:1.0''] [''app:1.0'']))
        ''app:1.0'' = None
   \<and> (\<exists>ms bl ms' bl' m evs bodies.
                   get_manifests_and_list_of_all_blobs example_registry [''multi:1.0''] []
                     = (Inr (ms, bl), [] @ map Resolve [''multi:1.0''])
                 \<and> map docker_image_name ms = [''multi:1.0'']
                 \<and> ''app:1.0'' \<notin> docker_image_name ` set ms
                 \<and> bl = concat (map (\<lambda>i. snd (projr (resolve example_registry i))) [''multi:1.0''])
                 \<and> get_manifests_and_list_of_all_blobs example_registry [''app:1.0''] ([] @ map Resolve [''multi:1.0''])
                     = (Inr (ms', bl'), [] @ map Resolve [''multi:1.0''] @ map Resolve [''app:1.0''])
                 \<and> add_blobs_to_zip example_registry bl bl' ([] @ map Resolve [''multi:1.0''] @ map Resolve [''app:1.0''])
                     = (Inr m, [] @ map Resolve [''multi:1.0''] @ map Resolve [''app:1.0''] @ evs)
                 \<and> fst ` set m = digest ` set bl
                 \<and> (\<forall>ev \<in> set evs. \<exists>b \<in> set bl. ev = PullBlob (repository b) (digest b)
                        \<or> (\<exists>data. ev = ZipWrite (''blobs/'' @ digest b) data))
                 \<and> length bodies = length [''multi:1.0'']
                 \<and> [Resolve ''multi:1.0'', Resolve ''app:1.0'',
         PullBlob ''multi'' ''sha256:def'',
         ZipWrite ''blobs/sha256:def'' ''bytes of sha256:def'',
         ZipWrite ''manifests/multi:1.0'' ''M1'',
         ZipWrite ''payload_descriptor.json'' ''descriptor''] = [] @ map Resolve [''multi:1.0''] @ map Resolve [''app:1.0''] @ evs
                        @ map (\<lambda>(i, body). ZipWrite (manifest_path example_common i) body) (zip [''multi:1.0''] bodies)
                        @ [ZipWrite ''payload_descriptor.json''
                             (payload_descriptor_json example_common
                                ((from_images example_common [''app:1.0'', ''multi:1.0''] [''app:1.0''])\<lparr>blobs_paths := m\<rparr>))])"
proof -
  have sep: "separate_images_to_transfer_and_images_to_skip [''app:1.0'', ''multi:1.0''] [''app:1.0'']
     = ([''multi:1.0''], [''app:1.0''])"
    by (simp add: separate_images_to_transfer_and_images_to_skip_def)
  have skipped: "''app:1.0'' \<in> set [''app:1.0'']"
    by simp
  have run: "create_zip_from_docker_images example_common example_registry
        [''app:1.0'', ''multi:1.0''] [''app:1.0''] []
     = (Inr (),
        [Resolve ''multi:1.0'', Resolve ''app:1.0'',
         PullBlob ''multi'' ''sha256:def'',
         ZipWrite ''blobs/sha256:def'' ''bytes of sha256:def'',
         ZipWrite ''manifests/multi:1.0'' ''M1'',
         ZipWrite ''payload_descriptor.json'' ''descriptor''])"
    by (rule ex_create_zip_skip)
  note inst = separate_images_partition
    [OF sep, of "''app:1.0''" example_common example_registry "[]" "()"
      "[Resolve ''multi:1.0'', Resolve ''app:1.0'',
         PullBlob ''multi'' ''sha256:def'',
         ZipWrite ''blobs/sha256:def'' ''bytes of sha256:def'',
         ZipWrite ''manifests/multi:1.0'' ''M1'',
         ZipWrite ''payload_descriptor.json'' ''descriptor'']"]
  note sk = inst [THEN conjunct2, THEN conjunct2, THEN conjunct2, THEN mp, OF skipped]
  note a = sk [THEN conjunct2, THEN conjunct2, THEN conjunct1]
  note b = sk [THEN conjunct2, THEN conjunct2, THEN conjunct2, THEN conjunct1]
  note plan = sk [THEN conjunct2, THEN conjunct2, THEN conjunct2, THEN conjunct2,
      THEN conjunct2, THEN mp, OF run]
  show ?thesis
    by (rule conjI [OF sep conjI [OF skipped conjI [OF run conjI [OF a conjI [OF b plan]]]]])
qed

text \<open>
  C7, as stated, fails in one point: a skipped image does contribute a manifest
  resolution. It is a member of the already-transferred list, and
  \<open>create_zip_from_docker_images\<close> resolves every image of that list to learn the
  blobs at the destination: with \<open>app:1.0\<close> in both lists, the run resolves
  \<open>app:1.0\<close>.
\<close>

theorem skipped_image_is_resolved:
  "''app:1.0'' \<in> set (snd (separate_images_to_transfer_and_images_to_skip
                            [''app:1.0'', ''multi:1.0''] [''app:1.0'']))
   \<and> Resolve ''app:1.0'' \<in> set (snd (create_zip_from_docker_images example_common example_registry
                                      [''app:1.0'', ''multi:1.0''] [''app:1.0''] []))"
  by (simp add: ex_create_zip_skip separate_images_to_transfer_and_images_to_skip_def)

text \<open>
  C8. When the resolution of some image of the needs-work list fails,
  \<open>create_zip_from_docker_images\<close> fails with the error of the first image that
  fails to resolve, and the only events of the run are the resolutions up to that
  image: no blob is pulled and nothing is written into the archive, the payload
  descriptor included. In every run, all resolutions come before every pull and every
  archive write.
\<close>

theorem create_zip_resolution_failure:
  "(img \<in> set (fst (separate_images_to_transfer_and_images_to_skip t a))
      \<and> isl (resolve reg img) \<longrightarrow>
      (\<exists>pre bad post e.
          fst (separate_images_to_transfer_and_images_to_skip t a) = pre @ bad # post
        \<and> (\<forall>i \<in> set pre. \<not> isl (resolve reg i))
        \<and> resolve reg bad = Inl e
        \<and> create_zip_from_docker_images cm reg t a tr = (Inl e, tr @ map Resolve (pre @ [bad]))))
   \<and> (\<exists>rs evs. snd (create_zip_from_docker_images cm reg t a tr) = tr @ map Resolve rs @ evs
          \<and> (\<forall>ev \<in> set evs. \<forall>i. ev \<noteq> Resolve i))"
proof -
  let ?needs = "fst (separate_images_to_transfer_and_images_to_skip t a)"
  have fails: "\<exists>pre bad post e. ?needs = pre @ bad # post
        \<and> (\<forall>i \<in> set pre. \<not> isl (resolve reg i))
        \<and> resolve reg bad = Inl e
        \<and> create_zip_from_docker_images cm reg t a tr = (Inl e, tr @ map Resolve (pre @ [bad]))"
    if "img \<in> set ?needs" and "isl (resolve reg img)"
  proof -
    from that have "\<exists>x \<in> set ?needs. isl (resolve reg x)" by blast
    from split_list_first_prop [OF this] obtain pre bad post where
      split: "?needs = pre @ bad # post" and bad: "isl (resolve reg bad)"
      and pre: "\<forall>i \<in> set pre. \<not> isl (resolve reg i)"
      by blast
    from bad obtain e where e: "resolve reg bad = Inl e"
      by (cases "resolve reg bad") auto
    from create_zip_fails_at_first_unresolved [OF split pre e] split pre e show ?thesis
      by blast
  qed
  from fails create_zip_trace_shape [of cm reg t a tr] show ?thesis
    by blast
qed

theorem create_zip_resolution_failure_witness:
  "''ghost:1.0'' \<in> set (fst (separate_images_to_transfer_and_images_to_skip
                               [''app:1.0'', ''ghost:1.0'', ''multi:1.0''] []))
   \<and> isl (resolve example_registry ''ghost:1.0'')
   \<and> create_zip_from_docker_images example_common example_registry
        [''app:1.0'', ''ghost:1.0'', ''multi:1.0''] [] []
     = (Inl ManifestNotFoundError, [Resolve ''app:1.0'', Resolve ''ghost:1.0''])
   \<and> (\<exists>pre bad post e.
          fst (separate_images_to_transfer_and_images_to_skip
                 [''app:1.0'', ''ghost:1.0'', ''multi:1.0''] []) = pre @ bad # post
        \<and> (\<forall>i \<in> set pre. \<not> isl (resolve example_registry i))
        \<and> resolve example_registry bad = Inl e
        \<and> create_zip_from_docker_images example_common example_registry
             [''app:1.0'', ''ghost:1.0'', ''multi:1.0''] [] []
           = (Inl e, [] @ map Resolve (pre @ [bad])))"
proof -
  have needs: "''ghost:1.0'' \<in> set (fst (separate_images_to_transfer_and_images_to_skip
                               [''app:1.0'', ''ghost:1.0'', ''multi:1.0''] []))"
    by (simp add: separate_images_to_transfer_and_images_to_skip_def)
  have ghost: "isl (resolve example_registry ''ghost:1.0'')"
    by (simp add: example_registry_def)
  have run: "create_zip_from_docker_images example_common example_registry
        [''app:1.0'', ''ghost:1.0'', ''multi:1.0''] [] []
     = (Inl ManifestNotFoundError, [Resolve ''app:1.0'', Resolve ''ghost:1.0''])"
    by (simp add: example_run_defs)
  from create_zip_resolution_failure
    [of "''ghost:1.0''" "[''app:1.0'', ''ghost:1.0'', ''multi:1.0'']" "[]" example_registry
      example_common "[]"]
    needs ghost run
  show ?thesis by blast
qed

end
